theory Spec2Isabelle
  imports Main
begin

section \<open>AST node model\<close>

text \<open>
  Modelled from the spec: the declarations of the AST node variants and of
  \<^verbatim>\<open>RangeOperator\<close> are not among the sources; the variants and their fields are
  the ones the sources switch over (\<^verbatim>\<open>*AndNode\<close> with \<^verbatim>\<open>Nodes\<close>, \<^verbatim>\<open>*IsNode\<close> with
  \<^verbatim>\<open>Identifier\<close> and \<^verbatim>\<open>Value\<close>, ...) and the data model of the spec lists.
  \<^verbatim>\<open>RangeOperatorIllegal\<close> stands for every operator value whose \<^verbatim>\<open>String()\<close> is
  \<^verbatim>\<open>"???"\<close>. A Go \<^verbatim>\<open>Node\<close> interface that is \<^verbatim>\<open>nil\<close> at the root is \<open>None\<close>.
\<close>

datatype RangeOperator =
    RangeOperatorLt
  | RangeOperatorLte
  | RangeOperatorGt
  | RangeOperatorGte
  | RangeOperatorIllegal

datatype Node =
    LiteralNode string
  | IsNode string Node
  | RangeNode string RangeOperator Node
  | AndNode "Node list"
  | OrNode "Node list"
  | NotNode Node
  | NestedNode Node

section \<open>hasmustequal.go\<close>

text \<open>
  A Go \<^verbatim>\<open>[]string\<close> result is a list; the functions below only ever return the
  \<^verbatim>\<open>nil\<close> slice or a slice with at least one element, so \<open>[]\<close> is exactly \<^verbatim>\<open>nil\<close>.
\<close>

fun literalValues :: "Node list \<Rightarrow> string list" where
  "literalValues [] = []"
| "literalValues (LiteralNode v # nodes) = v # literalValues nodes"
| "literalValues (_ # nodes) = literalValues nodes"

fun hasMustEqualIsNode :: "string \<Rightarrow> Node \<Rightarrow> string \<Rightarrow> string list" where
  "hasMustEqualIsNode identifier val field =
     (if identifier \<noteq> field then []
      else (case val of
              LiteralNode v \<Rightarrow> [v]
            | OrNode nodes \<Rightarrow> literalValues nodes
            | _ \<Rightarrow> []))"

fun hasMustEqualAndNode :: "Node list \<Rightarrow> string \<Rightarrow> string list" where
  "hasMustEqualAndNode [] field = []"
| "hasMustEqualAndNode (IsNode identifier val # nodes) field =
     hasMustEqualIsNode identifier val field @ hasMustEqualAndNode nodes field"
| "hasMustEqualAndNode (_ # nodes) field = hasMustEqualAndNode nodes field"

text \<open>
  The loop of \<^verbatim>\<open>hasMustEqualOrNode\<close>, with the values collected so far as the
  accumulator: an \<^verbatim>\<open>IsNode\<close> child with no values returns \<^verbatim>\<open>nil\<close> at once, any
  other kind of child is skipped by \<^verbatim>\<open>continue\<close>.
\<close>

fun hasMustEqualOrLoop :: "Node list \<Rightarrow> string \<Rightarrow> string list \<Rightarrow> string list" where
  "hasMustEqualOrLoop [] field values = values"
| "hasMustEqualOrLoop (IsNode identifier val # nodes) field values =
     (let values' = hasMustEqualIsNode identifier val field in
      if length values' = 0 then []
      else hasMustEqualOrLoop nodes field (values @ values'))"
| "hasMustEqualOrLoop (_ # nodes) field values = hasMustEqualOrLoop nodes field values"

definition hasMustEqualOrNode :: "Node list \<Rightarrow> string \<Rightarrow> string list" where
  "hasMustEqualOrNode nodes field = hasMustEqualOrLoop nodes field []"

fun HasMustEqual :: "Node option \<Rightarrow> string \<Rightarrow> string list" where
  "HasMustEqual None field = []"
| "HasMustEqual (Some (AndNode nodes)) field = hasMustEqualAndNode nodes field"
| "HasMustEqual (Some (IsNode identifier val)) field = hasMustEqualIsNode identifier val field"
| "HasMustEqual (Some (OrNode nodes)) field = hasMustEqualOrNode nodes field"
| "HasMustEqual (Some _) field = []"

section \<open>Errors\<close>

text \<open>
  Every \<^verbatim>\<open>fmt.Errorf\<close> of the package is a constructor that keeps the arguments of
  the format string:
  \<^item> \<open>UnsupportedNodeType t\<close>: \<^verbatim>\<open>"unsupported node type %T"\<close>;
  \<^item> \<open>OnlyBooleanLiterals v\<close>: \<^verbatim>\<open>"only boolean literals are supported; %s"\<close>;
  \<^item> \<open>FieldCountExceeded\<close>: \<^verbatim>\<open>"field count maximum in filter exceeded"\<close>;
  \<^item> \<open>NegationOnOperator op\<close>: \<^verbatim>\<open>"cannot support negation on operator %s"\<close>;
  \<^item> \<open>UnsupportedOperator op\<close>: \<^verbatim>\<open>"unsupported operator %s"\<close>;
  \<^item> \<open>UnknownField field\<close>: \<^verbatim>\<open>"unknown field: %s"\<close>;
  \<^item> \<open>OnlyInCombination field required\<close>:
    \<^verbatim>\<open>"%s can only be used in this filter in combination with %s"\<close>;
  \<^item> \<open>FieldError field err\<close>: \<^verbatim>\<open>"field %s: %w"\<close>;
  \<^item> \<open>MultipleValuesNotAllowed\<close>: \<^verbatim>\<open>"multiple values are not allowed"\<close>;
  \<^item> \<open>InvalidValue t\<close>: \<^verbatim>\<open>"invalid INT64 value: %w"\<close> and its three siblings, \<open>t\<close> the
    name of the column type;
  \<^item> \<open>NoMultipleValues op field\<close>:
    \<^verbatim>\<open>"operator %s doesn't support multiple values in field: %s"\<close>;
  \<^item> \<open>OperatorNotSupportedForFieldType op t\<close>:
    \<^verbatim>\<open>"operator %s not supported for field type %s"\<close>;
  \<^item> \<open>OperatorNotSupportedForField op field\<close>:
    \<^verbatim>\<open>"operator %s not supported for field: %s"\<close>;
  \<^item> \<open>RequiredFieldMissing field\<close>: \<^verbatim>\<open>"required field %s missing"\<close>;
  \<^item> \<open>AnySliceTypeMismatch\<close>: \<^verbatim>\<open>"values' type in any slice doesn't match ..."\<close>;
  \<^item> \<open>CannotParseToSlice\<close>: \<^verbatim>\<open>"cannot parse input to a slice"\<close>;
  \<^item> \<open>HookError msg\<close>: an error returned by a caller's hook;
  \<^item> \<open>Panic\<close>: a run-time panic of the Go program;
  \<^item> in the package \<^verbatim>\<open>elastic\<close>, \<open>Wrapped id err\<close>: \<^verbatim>\<open>"%s: %w"\<close>;
    \<open>InvalidSyntax id\<close>: \<^verbatim>\<open>"%s: invalid syntax"\<close>;
    \<open>ExpectedLiteralNode id\<close>: \<^verbatim>\<open>"%s: expected literal node"\<close>;
    \<open>ExpectedNumberOrDate\<close>: \<^verbatim>\<open>"expected number or date literal"\<close>;
    \<open>UnexpectedNodeType t\<close>: \<^verbatim>\<open>"unexpected node type: %T"\<close>.
\<close>

datatype error =
    UnsupportedNodeType string
  | OnlyBooleanLiterals string
  | FieldCountExceeded
  | NegationOnOperator string
  | UnsupportedOperator string
  | UnknownField string
  | OnlyInCombination string string
  | FieldError string error
  | MultipleValuesNotAllowed
  | InvalidValue string
  | NoMultipleValues string string
  | OperatorNotSupportedForFieldType string string
  | OperatorNotSupportedForField string string
  | RequiredFieldMissing string
  | AnySliceTypeMismatch
  | CannotParseToSlice
  | HookError string
  | Panic
  | Wrapped string error
  | InvalidSyntax string
  | ExpectedLiteralNode string
  | ExpectedNumberOrDate
  | UnexpectedNodeType string

section \<open>filter.go\<close>

record Clause =
  Field :: string
  Operator :: string
  Values :: "string list"

record Filter =
  Clauses :: "Clause list"

text \<open>What \<^verbatim>\<open>%T\<close> prints for a node.\<close>

fun typeName :: "Node \<Rightarrow> string" where
  "typeName (LiteralNode _) = ''*kqlfilter.LiteralNode''"
| "typeName (IsNode _ _) = ''*kqlfilter.IsNode''"
| "typeName (RangeNode _ _ _) = ''*kqlfilter.RangeNode''"
| "typeName (AndNode _) = ''*kqlfilter.AndNode''"
| "typeName (OrNode _) = ''*kqlfilter.OrNode''"
| "typeName (NotNode _) = ''*kqlfilter.NotNode''"
| "typeName (NestedNode _) = ''*kqlfilter.NestedNode''"

fun RangeOperator_String :: "RangeOperator \<Rightarrow> string" where
  "RangeOperator_String RangeOperatorLt = ''<''"
| "RangeOperator_String RangeOperatorLte = ''<=''"
| "RangeOperator_String RangeOperatorGt = ''>''"
| "RangeOperator_String RangeOperatorGte = ''>=''"
| "RangeOperator_String RangeOperatorIllegal = ''???''"

definition convertLiteralNode :: "string \<Rightarrow> error + Filter" where
  "convertLiteralNode v =
     (if v \<notin> set [''true'', ''false''] then Inl (OnlyBooleanLiterals v)
      else if v = ''true''
        then Inr \<lparr>Clauses = [\<lparr>Field = ''1'', Operator = ''='', Values = [''1'']\<rparr>]\<rparr>
        else Inr \<lparr>Clauses = [\<lparr>Field = ''1'', Operator = ''='', Values = [''0'']\<rparr>]\<rparr>)"

text \<open>The loop over the children of the \<^verbatim>\<open>OrNode\<close> under an \<^verbatim>\<open>IsNode\<close>.\<close>

fun isNodeValues :: "Node list \<Rightarrow> string list \<Rightarrow> error + string list" where
  "isNodeValues [] vals = Inr vals"
| "isNodeValues (LiteralNode v # nodes) vals = isNodeValues nodes (vals @ [v])"
| "isNodeValues (node # nodes) vals = Inl (UnsupportedNodeType (typeName node))"

definition convertIsNode :: "string \<Rightarrow> Node \<Rightarrow> error + Filter" where
  "convertIsNode identifier val =
     (case val of
        LiteralNode v \<Rightarrow>
          Inr \<lparr>Clauses = [\<lparr>Field = identifier, Operator = ''='', Values = [v]\<rparr>]\<rparr>
      | OrNode nodes \<Rightarrow>
          (case isNodeValues nodes [] of
             Inl e \<Rightarrow> Inl e
           | Inr vals \<Rightarrow>
               Inr \<lparr>Clauses = [\<lparr>Field = identifier, Operator = ''IN'', Values = vals\<rparr>]\<rparr>)
      | _ \<Rightarrow> Inl (UnsupportedNodeType (typeName val)))"

text \<open>
  The loop of \<^verbatim>\<open>convertNotNode\<close> over the clauses, rewriting \<^verbatim>\<open>=\<close> to \<^verbatim>\<open>!=\<close> in
  place.
\<close>

fun negateClauses :: "Clause list \<Rightarrow> error + Clause list" where
  "negateClauses [] = Inr []"
| "negateClauses (c # cs) =
     (if Operator c = ''=''
      then (case negateClauses cs of
              Inl e \<Rightarrow> Inl e
            | Inr cs' \<Rightarrow> Inr (c\<lparr>Operator := ''!=''\<rparr> # cs'))
      else Inl (NegationOnOperator (Operator c)))"

definition convertNotNode :: "Node \<Rightarrow> error + Filter" where
  "convertNotNode expr =
     (case expr of
        IsNode identifier val \<Rightarrow>
          (case convertIsNode identifier val of
             Inl e \<Rightarrow> Inl e
           | Inr filter' \<Rightarrow>
               (case negateClauses (Clauses filter') of
                  Inl e \<Rightarrow> Inl e
                | Inr cs \<Rightarrow> Inr (filter'\<lparr>Clauses := cs\<rparr>)))
      | _ \<Rightarrow> Inl (UnsupportedNodeType (typeName expr)))"

definition convertRangeNode :: "string \<Rightarrow> RangeOperator \<Rightarrow> Node \<Rightarrow> error + Filter" where
  "convertRangeNode identifier op val =
     (case val of
        LiteralNode v \<Rightarrow>
          (let operator = RangeOperator_String op in
           if operator = ''???'' then Inl (UnsupportedOperator operator)
           else Inr \<lparr>Clauses = [\<lparr>Field = identifier, Operator = operator, Values = [v]\<rparr>]\<rparr>)
      | _ \<Rightarrow> Inl (UnsupportedNodeType (typeName val)))"

text \<open>
  The type switch in the first loop of \<^verbatim>\<open>convertAndNode\<close>; its \<^verbatim>\<open>default\<close> branch
  prints the type of the \<^verbatim>\<open>AndNode\<close> itself.
\<close>

fun convertAndChild :: "Node \<Rightarrow> error + Filter" where
  "convertAndChild (IsNode identifier val) = convertIsNode identifier val"
| "convertAndChild (NotNode expr) = convertNotNode expr"
| "convertAndChild (RangeNode identifier op val) = convertRangeNode identifier op val"
| "convertAndChild (LiteralNode v) = convertLiteralNode v"
| "convertAndChild _ = Inl (UnsupportedNodeType ''*kqlfilter.AndNode'')"

fun convertAndChildren :: "Node list \<Rightarrow> Clause list \<Rightarrow> error + Clause list" where
  "convertAndChildren [] clauses = Inr clauses"
| "convertAndChildren (node # nodes) clauses =
     (case convertAndChild node of
        Inl e \<Rightarrow> Inl e
      | Inr f \<Rightarrow> convertAndChildren nodes (clauses @ Clauses f))"

text \<open>
  The second loop of \<^verbatim>\<open>convertAndNode\<close>; \<^verbatim>\<open>fieldCounts\<close> is a Go map read with the
  default \<^verbatim>\<open>0\<close>, here a function that starts as \<open>\<lambda>_. 0\<close>.
\<close>

fun fieldCountLoop :: "Clause list \<Rightarrow> (string \<Rightarrow> nat) \<Rightarrow> error option" where
  "fieldCountLoop [] fieldCounts = None"
| "fieldCountLoop (clause # clauses) fieldCounts =
     (let fieldCounts' = fieldCounts(Field clause := fieldCounts (Field clause) + 1) in
      if fieldCounts' (Field clause) > 2 then Some FieldCountExceeded
      else fieldCountLoop clauses fieldCounts')"

definition convertAndNode :: "Node list \<Rightarrow> error + Filter" where
  "convertAndNode nodes =
     (case convertAndChildren nodes [] of
        Inl e \<Rightarrow> Inl e
      | Inr clauses \<Rightarrow>
          (case fieldCountLoop clauses (\<lambda>_. 0) of
             Some e \<Rightarrow> Inl e
           | None \<Rightarrow> Inr \<lparr>Clauses = clauses\<rparr>))"

fun convertToFilter :: "Node option \<Rightarrow> error + Filter" where
  "convertToFilter None = Inr \<lparr>Clauses = []\<rparr>"
| "convertToFilter (Some (AndNode nodes)) = convertAndNode nodes"
| "convertToFilter (Some (IsNode identifier val)) = convertIsNode identifier val"
| "convertToFilter (Some (RangeNode identifier op val)) = convertRangeNode identifier op val"
| "convertToFilter (Some (NotNode expr)) = convertNotNode expr"
| "convertToFilter (Some (LiteralNode v)) = convertLiteralNode v"
| "convertToFilter (Some ast) = Inl (UnsupportedNodeType (typeName ast))"

section \<open>filter\_spanner.go: values and field configs\<close>

datatype FilterToSpannerFieldColumnType =
    FilterToSpannerFieldColumnTypeUnspecified
  | FilterToSpannerFieldColumnTypeString
  | FilterToSpannerFieldColumnTypeInt64
  | FilterToSpannerFieldColumnTypeFloat64
  | FilterToSpannerFieldColumnTypeBool
  | FilterToSpannerFieldColumnTypeTimestamp

fun ColumnType_String :: "FilterToSpannerFieldColumnType \<Rightarrow> string" where
  "ColumnType_String FilterToSpannerFieldColumnTypeString = ''STRING''"
| "ColumnType_String FilterToSpannerFieldColumnTypeInt64 = ''INT64''"
| "ColumnType_String FilterToSpannerFieldColumnTypeFloat64 = ''FLOAT64''"
| "ColumnType_String FilterToSpannerFieldColumnTypeBool = ''BOOL''"
| "ColumnType_String FilterToSpannerFieldColumnTypeTimestamp = ''TIMESTAMP''"
| "ColumnType_String FilterToSpannerFieldColumnTypeUnspecified = ''???''"

text \<open>
  A Go value of type \<^verbatim>\<open>any\<close>, as far as the package tells values apart: \<^verbatim>\<open>nil\<close>, the
  five scalar types, slices of them, \<^verbatim>\<open>[]any\<close>, and \<open>AnyOther s\<close> for a value of any
  other type, \<open>s\<close> telling whether its \<^verbatim>\<open>reflect.Kind\<close> is \<^verbatim>\<open>Slice\<close>. The types
  \<^verbatim>\<open>float64\<close> and \<^verbatim>\<open>time.Time\<close> are the parameters \<open>'f\<close> and \<open>'t\<close> (the lowering
  to SQL takes \<open>'i Time\<close>, below, for \<open>'t\<close>); an \<^verbatim>\<open>int64\<close> is an \<open>int\<close> (the package does
  no arithmetic on it).
\<close>

datatype ('f, 't) anyval =
    AnyNil
  | AnyString string
  | AnyInt64 int
  | AnyFloat64 'f
  | AnyBool bool
  | AnyTime 't
  | AnyStrings "string list"
  | AnyInt64s "int list"
  | AnyFloat64s "'f list"
  | AnyBools "bool list"
  | AnyTimes "'t list"
  | AnySlice "('f, 't) anyval list"
  | AnyOther bool

text \<open>
  A \<^verbatim>\<open>time.Time\<close> is a struct of an instant (its fields \<^verbatim>\<open>wall\<close> and \<^verbatim>\<open>ext\<close>, the
  parameter \<open>'i\<close>) and of a pointer \<^verbatim>\<open>loc\<close> to a \<^verbatim>\<open>Location\<close>. Go's \<^verbatim>\<open>==\<close> on two of them,
  which a map keyed by \<^verbatim>\<open>time.Time\<close> uses, compares the instants and the pointers, not
  what the pointers point to. A pointer is either one that every call returns
  (\<^verbatim>\<open>nil\<close> for UTC, \<^verbatim>\<open>&localLoc\<close>, the locations that recent versions of
  \<^verbatim>\<open>time.FixedZone\<close> keep for the offsets of whole hours), \<open>Shared k\<close>, or the address of a
  \<^verbatim>\<open>Location\<close> that a call of \<^verbatim>\<open>time.Parse\<close> allocated. An allocated address is named by the call that allocated it:
  \<open>Allocated p i\<close> by the conversion of the value at index \<open>i\<close> of the clause that is
  lowered with the parameter index \<open>p\<close> (every call of \<^verbatim>\<open>time.Parse\<close> within one call of
  \<^verbatim>\<open>ToSpannerSQL\<close> has another \<open>(p, i)\<close>, as two allocations have different addresses).
  HOL equality on \<open>'i Time\<close> is then Go's \<^verbatim>\<open>==\<close>.
\<close>

datatype Location = Shared nat | Allocated nat nat

datatype 'i Time = Time 'i Location

text \<open>
  The functions of the Go standard library that the package calls on values:
  \<^verbatim>\<open>strconv.ParseInt(_, 10, 64)\<close>, \<^verbatim>\<open>strconv.ParseFloat(_, 64)\<close>, \<^verbatim>\<open>strconv.ParseBool\<close>,
  \<^verbatim>\<open>time.Parse(time.RFC3339, _)\<close> (\<open>None\<close> when they return an error), and the
  equality of \<^verbatim>\<open>float64\<close> map keys (\<^verbatim>\<open>==\<close>, under which a NaN equals nothing).
  \<^verbatim>\<open>time.Parse\<close> gives the instant and the location of the time it returns: \<open>Some k\<close>
  for the shared pointer \<open>k\<close> (a string that ends in \<^verbatim>\<open>Z\<close> or in the offset of the local
  zone), \<open>None\<close> when the call allocates the \<^verbatim>\<open>Location\<close> with \<^verbatim>\<open>time.FixedZone\<close> (an
  offset such as \<^verbatim>\<open>+05:30\<close> that is not the one of the local zone).
\<close>

record ('f, 'i) stdlib =
  ParseInt :: "string \<Rightarrow> int option"
  ParseFloat :: "string \<Rightarrow> 'f option"
  ParseBool :: "string \<Rightarrow> bool option"
  ParseTime :: "string \<Rightarrow> ('i \<times> nat option) option"
  float64Eq :: "'f \<Rightarrow> 'f \<Rightarrow> bool"

record ('f, 't) FilterToSpannerFieldConfig =
  ColumnName :: string
  ColumnType :: FilterToSpannerFieldColumnType
  Required :: bool
  Requires :: "string list"
  AllowPrefixMatch :: bool
  AllowSuffixMatch :: bool
  AllowCaseInsensitiveMatch :: bool
  AllowMultipleValues :: bool
  AllowRanges :: bool
  AllowContains :: bool
  AllowContainedBy :: bool
  AllowNegation :: bool
  Aliases :: "string list"
  MapValue :: "(string \<Rightarrow> error + ('f, 't) anyval) option"
  Ignore :: bool

text \<open>The zero value of the struct, which \<^verbatim>\<open>fieldConfigs[clause.Field]\<close> is for a missing key.\<close>

definition zeroFieldConfig :: "('f, 't) FilterToSpannerFieldConfig" where
  "zeroFieldConfig =
     \<lparr>ColumnName = [], ColumnType = FilterToSpannerFieldColumnTypeUnspecified,
      Required = False, Requires = [], AllowPrefixMatch = False, AllowSuffixMatch = False,
      AllowCaseInsensitiveMatch = False, AllowMultipleValues = False, AllowRanges = False,
      AllowContains = False, AllowContainedBy = False, AllowNegation = False, Aliases = [],
      MapValue = None, Ignore = False\<rparr>"

subsection \<open>convertValue, unwrapSlice, mapValues\<close>

definition convertInt64 :: "('f, 'i) stdlib \<Rightarrow> string \<Rightarrow> error + int" where
  "convertInt64 lib v =
     (case ParseInt lib v of None \<Rightarrow> Inl (InvalidValue ''INT64'') | Some i \<Rightarrow> Inr i)"

definition convertFloat64 :: "('f, 'i) stdlib \<Rightarrow> string \<Rightarrow> error + 'f" where
  "convertFloat64 lib v =
     (case ParseFloat lib v of None \<Rightarrow> Inl (InvalidValue ''FLOAT64'') | Some d \<Rightarrow> Inr d)"

definition convertBool :: "('f, 'i) stdlib \<Rightarrow> string \<Rightarrow> error + bool" where
  "convertBool lib v =
     (case ParseBool lib v of None \<Rightarrow> Inl (InvalidValue ''BOOL'') | Some b \<Rightarrow> Inr b)"

text \<open>
  The \<^verbatim>\<open>TIMESTAMP\<close> case of \<^verbatim>\<open>convertValue\<close>. The arguments \<open>p\<close> and \<open>i\<close> are not
  parameters of the Go function: they name the call, for the \<^verbatim>\<open>Location\<close> that
  \<^verbatim>\<open>time.Parse\<close> allocates in it.
\<close>

definition convertTimestamp :: "('f, 'i) stdlib \<Rightarrow> nat \<Rightarrow> nat \<Rightarrow> string \<Rightarrow> error + 'i Time" where
  "convertTimestamp lib p i v =
     (case ParseTime lib v of
        None \<Rightarrow> Inl (InvalidValue ''TIMESTAMP'')
      | Some (t, Some k) \<Rightarrow> Inr (Time t (Shared k))
      | Some (t, None) \<Rightarrow> Inr (Time t (Allocated p i)))"

definition convertValue ::
  "('f, 'i) stdlib \<Rightarrow> ('f, 'i Time) FilterToSpannerFieldConfig \<Rightarrow> nat \<Rightarrow> nat \<Rightarrow> string
     \<Rightarrow> error + ('f, 'i Time) anyval"
where
  "convertValue lib f p i v =
     (case ColumnType f of
        FilterToSpannerFieldColumnTypeInt64 \<Rightarrow> map_sum id AnyInt64 (convertInt64 lib v)
      | FilterToSpannerFieldColumnTypeFloat64 \<Rightarrow> map_sum id AnyFloat64 (convertFloat64 lib v)
      | FilterToSpannerFieldColumnTypeBool \<Rightarrow> map_sum id AnyBool (convertBool lib v)
      | FilterToSpannerFieldColumnTypeTimestamp \<Rightarrow>
          map_sum id AnyTime (convertTimestamp lib p i v)
      | FilterToSpannerFieldColumnTypeString \<Rightarrow> Inr (AnyString v)
      | FilterToSpannerFieldColumnTypeUnspecified \<Rightarrow>
          (if v = ''0'' then Inr (AnyInt64 0)
           else if v = ''1'' then Inr (AnyInt64 1)
           else Inr (AnyString v)))"

text \<open>A loop that converts every element and stops at the first error.\<close>

fun convertEach :: "('a \<Rightarrow> error + 'b) \<Rightarrow> 'a list \<Rightarrow> error + 'b list" where
  "convertEach conv [] = Inr []"
| "convertEach conv (v # vs) =
     (case conv v of
        Inl e \<Rightarrow> Inl e
      | Inr x \<Rightarrow> (case convertEach conv vs of Inl e \<Rightarrow> Inl e | Inr xs \<Rightarrow> Inr (x # xs)))"

text \<open>
  \<^verbatim>\<open>unwrapSlice\<close> is only called on a \<^verbatim>\<open>[]any\<close> or a \<^verbatim>\<open>[]string\<close>; the element
  of a slice of a type that is not modelled is not known, and \<open>AnyOther\<close> is left as it is.
\<close>

fun unwrapSlice :: "('f, 't) anyval \<Rightarrow> ('f, 't) anyval" where
  "unwrapSlice (AnySlice [x]) = x"
| "unwrapSlice (AnyStrings [x]) = AnyString x"
| "unwrapSlice (AnyInt64s [x]) = AnyInt64 x"
| "unwrapSlice (AnyFloat64s [x]) = AnyFloat64 x"
| "unwrapSlice (AnyBools [x]) = AnyBool x"
| "unwrapSlice (AnyTimes [x]) = AnyTime x"
| "unwrapSlice v = v"

text \<open>\<^verbatim>\<open>reflect.TypeOf(v).Kind() == reflect.Slice\<close>, for a \<open>v\<close> that is not \<^verbatim>\<open>nil\<close>.\<close>

fun kindIsSlice :: "('f, 't) anyval \<Rightarrow> bool" where
  "kindIsSlice (AnyStrings _) = True"
| "kindIsSlice (AnyInt64s _) = True"
| "kindIsSlice (AnyFloat64s _) = True"
| "kindIsSlice (AnyBools _) = True"
| "kindIsSlice (AnyTimes _) = True"
| "kindIsSlice (AnySlice _) = True"
| "kindIsSlice (AnyOther s) = s"
| "kindIsSlice _ = False"

text \<open>
  \<^verbatim>\<open>mapValues\<close>. With none of the three flags set the condition of line 111 calls
  \<^verbatim>\<open>reflect.TypeOf(outputValue).Kind()\<close>, which panics when the hook returned \<^verbatim>\<open>nil\<close> for
  a single value. The argument \<open>p\<close> is the parameter index of the clause, which names the
  call (see \<open>convertTimestamp\<close>); the loops over a \<^verbatim>\<open>[]string\<close> call \<^verbatim>\<open>convertValue\<close> on
  every element, of which the case of the column type is written here.
\<close>

definition mapValues ::
  "('f, 'i) stdlib \<Rightarrow> ('f, 'i Time) FilterToSpannerFieldConfig \<Rightarrow> nat \<Rightarrow> string list
     \<Rightarrow> error + ('f, 'i Time) anyval"
where
  "mapValues lib f p vals =
     (case (case MapValue f of
              Some hook \<Rightarrow> map_sum id AnySlice (convertEach hook vals)
            | None \<Rightarrow> Inr (AnyStrings vals)) of
        Inl e \<Rightarrow> Inl e
      | Inr outputValue0 \<Rightarrow>
          (let outputValue = unwrapSlice outputValue0;
               multi = (AllowMultipleValues f \<or> AllowContains f \<or> AllowContainedBy f) in
           if \<not> multi \<and> outputValue = AnyNil then Inl Panic
           else if \<not> multi \<and> kindIsSlice outputValue then Inl MultipleValuesNotAllowed
           else (case outputValue of
                   AnyString ov \<Rightarrow> convertValue lib f p 0 ov
                 | AnyStrings ov \<Rightarrow>
                     (case ColumnType f of
                        FilterToSpannerFieldColumnTypeInt64 \<Rightarrow>
                          map_sum id AnyInt64s (convertEach (convertInt64 lib) ov)
                      | FilterToSpannerFieldColumnTypeFloat64 \<Rightarrow>
                          map_sum id AnyFloat64s (convertEach (convertFloat64 lib) ov)
                      | FilterToSpannerFieldColumnTypeBool \<Rightarrow>
                          map_sum id AnyBools (convertEach (convertBool lib) ov)
                      | FilterToSpannerFieldColumnTypeTimestamp \<Rightarrow>
                          map_sum id AnyTimes
                            (convertEach (\<lambda>(i, v). convertTimestamp lib p i v) (enumerate 0 ov))
                      | _ \<Rightarrow> Inr outputValue)
                 | _ \<Rightarrow> Inr outputValue)))"

subsection \<open>parseAnyToSlice, uniqueSliceElements, escapePrefixSuffixSpecialChars\<close>

text \<open>
  \<^verbatim>\<open>parseAnyToSlice[T]\<close>: the type \<open>T\<close> is given by its two type assertions, \<open>one\<close> for
  \<^verbatim>\<open>s.(T)\<close> and \<open>many\<close> for \<^verbatim>\<open>s.([]T)\<close>.
\<close>

fun anySliceLoop :: "(('f, 't) anyval \<Rightarrow> 'a option) \<Rightarrow> ('f, 't) anyval list \<Rightarrow> error + 'a list" where
  "anySliceLoop one [] = Inr []"
| "anySliceLoop one (v # vs) =
     (case one v of
        None \<Rightarrow> Inl AnySliceTypeMismatch
      | Some x \<Rightarrow> (case anySliceLoop one vs of Inl e \<Rightarrow> Inl e | Inr xs \<Rightarrow> Inr (x # xs)))"

definition parseAnyToSlice ::
  "(('f, 't) anyval \<Rightarrow> 'a option) \<Rightarrow> (('f, 't) anyval \<Rightarrow> 'a list option) \<Rightarrow> ('f, 't) anyval
     \<Rightarrow> error + 'a list"
where
  "parseAnyToSlice one many s =
     (if s = AnyNil then Inr []
      else (case one s of
              Some sVal \<Rightarrow> Inr [sVal]
            | None \<Rightarrow>
                (case many s of
                   Some sVal \<Rightarrow> Inr sVal
                 | None \<Rightarrow>
                     (case s of
                        AnySlice sVal \<Rightarrow> anySliceLoop one sVal
                      | _ \<Rightarrow> Inl CannotParseToSlice))))"

fun asString :: "('f, 't) anyval \<Rightarrow> string option" where
  "asString (AnyString x) = Some x"
| "asString _ = None"

fun asStrings :: "('f, 't) anyval \<Rightarrow> string list option" where
  "asStrings (AnyStrings xs) = Some xs"
| "asStrings _ = None"

fun asInt64 :: "('f, 't) anyval \<Rightarrow> int option" where
  "asInt64 (AnyInt64 x) = Some x"
| "asInt64 _ = None"

fun asInt64s :: "('f, 't) anyval \<Rightarrow> int list option" where
  "asInt64s (AnyInt64s xs) = Some xs"
| "asInt64s _ = None"

fun asFloat64 :: "('f, 't) anyval \<Rightarrow> 'f option" where
  "asFloat64 (AnyFloat64 x) = Some x"
| "asFloat64 _ = None"

fun asFloat64s :: "('f, 't) anyval \<Rightarrow> 'f list option" where
  "asFloat64s (AnyFloat64s xs) = Some xs"
| "asFloat64s _ = None"

fun asTime :: "('f, 't) anyval \<Rightarrow> 't option" where
  "asTime (AnyTime x) = Some x"
| "asTime _ = None"

fun asTimes :: "('f, 't) anyval \<Rightarrow> 't list option" where
  "asTimes (AnyTimes xs) = Some xs"
| "asTimes _ = None"

text \<open>
  \<^verbatim>\<open>uniqueSliceElements\<close>: \<open>seen\<close> lists the keys of the map \<^verbatim>\<open>seen\<close> (every key is
  stored with \<^verbatim>\<open>true\<close>), \<open>eq\<close> is the equality of map keys of the element type.
\<close>

fun uniqueLoop :: "('a \<Rightarrow> 'a \<Rightarrow> bool) \<Rightarrow> 'a list \<Rightarrow> 'a list \<Rightarrow> 'a list \<Rightarrow> 'a list" where
  "uniqueLoop eq [] uniqueSlice seen = uniqueSlice"
| "uniqueLoop eq (element # inputSlice) uniqueSlice seen =
     (if \<not> list_ex (\<lambda>key. eq key element) seen
      then uniqueLoop eq inputSlice (uniqueSlice @ [element]) (seen @ [element])
      else uniqueLoop eq inputSlice uniqueSlice seen)"

definition uniqueSliceElements :: "('a \<Rightarrow> 'a \<Rightarrow> bool) \<Rightarrow> 'a list \<Rightarrow> 'a list" where
  "uniqueSliceElements eq inputSlice = uniqueLoop eq inputSlice [] []"

text \<open>\<^verbatim>\<open>strings.ReplaceAll(s, old, new)\<close> for an \<^verbatim>\<open>old\<close> of one byte.\<close>

definition ReplaceAll :: "string \<Rightarrow> char \<Rightarrow> string \<Rightarrow> string" where
  "ReplaceAll s old new = concat (map (\<lambda>c. if c = old then new else [c]) s)"

definition escapePrefixSuffixSpecialChars :: "string \<Rightarrow> string" where
  "escapePrefixSuffixSpecialChars s =
     ReplaceAll
       (ReplaceAll
          (ReplaceAll s (CHR 0x5C) [CHR 0x5C, CHR 0x5C])
          (CHR ''_'') [CHR 0x5C, CHR ''_''])
       (CHR ''%'') [CHR 0x5C, CHR ''%'']"

definition HasSuffix :: "string \<Rightarrow> string \<Rightarrow> bool" where
  "HasSuffix s suffix' =
     (length suffix' \<le> length s \<and> drop (length s - length suffix') s = suffix')"

definition HasPrefix :: "string \<Rightarrow> string \<Rightarrow> bool" where
  "HasPrefix s prefix' = (length prefix' \<le> length s \<and> take (length prefix') s = prefix')"

text \<open>\<^verbatim>\<open>%d\<close> of a non-negative \<^verbatim>\<open>int\<close>.\<close>

function formatNat :: "nat \<Rightarrow> string" where
  "formatNat n =
     (if n < 10 then [''0123456789'' ! n]
      else formatNat (n div 10) @ [''0123456789'' ! (n mod 10)])"
  by pat_completeness auto
termination
  by (relation "measure id") auto

definition paramName :: "nat \<Rightarrow> string" where
  "paramName paramIndex = ''KQL'' @ formatNat paramIndex"

declare formatNat.simps [simp del]

subsection \<open>ToSpannerSQL\<close>

text \<open>
  \<^verbatim>\<open>fieldConfigs\<close> is a Go map; it is an association list here, looked up with
  \<open>map_of\<close>, and the order of the list is the order in which \<^verbatim>\<open>range fieldConfigs\<close>
  happens to visit the entries (Go fixes no order; the statements below hold for every
  list, hence for every order). \<open>aliasLookup\<close> is the search for an alias (lines 287 to
  298): the first config in that order with the field among its aliases.
\<close>

type_synonym ('f, 't) fieldConfigs = "(string \<times> ('f, 't) FilterToSpannerFieldConfig) list"

fun aliasLookup ::
  "('f, 't) fieldConfigs \<Rightarrow> string \<Rightarrow> ('f, 't) FilterToSpannerFieldConfig option"
where
  "aliasLookup [] field = None"
| "aliasLookup ((key, fc) # fieldConfigs) field =
     (if list_ex (\<lambda>alias. alias = field) (Aliases fc) then Some fc
      else aliasLookup fieldConfigs field)"

text \<open>Lines 284 to 307: the config of the clause, or the unknown-field error.\<close>

definition resolveFieldConfig ::
  "('f, 't) fieldConfigs \<Rightarrow> Clause \<Rightarrow> error + ('f, 't) FilterToSpannerFieldConfig"
where
  "resolveFieldConfig fieldConfigs clause =
     (case map_of fieldConfigs (Field clause) of
        Some fieldConfig \<Rightarrow> Inr fieldConfig
      | None \<Rightarrow>
          (case aliasLookup fieldConfigs (Field clause) of
             Some fc \<Rightarrow> Inr fc
           | None \<Rightarrow>
               (if Field clause = ''1'' \<and> Operator clause = ''='' \<and> length (Values clause) = 1
                   \<and> (Values clause ! 0 = ''1'' \<or> Values clause ! 0 = ''0'')
                then Inr zeroFieldConfig
                else Inl (UnknownField (Field clause)))))"

text \<open>Lines 313 to 326, for the clause on the field \<open>field\<close>.\<close>

fun requiresLoop ::
  "('f, 't) FilterToSpannerFieldConfig \<Rightarrow> Clause list \<Rightarrow> string \<Rightarrow> string list \<Rightarrow> error option"
where
  "requiresLoop fieldConfig clauses field [] = None"
| "requiresLoop fieldConfig clauses field (requiredField # requires) =
     (if list_ex (\<lambda>c. Field c = requiredField \<or> Field c \<in> set (Aliases fieldConfig)) clauses
      then requiresLoop fieldConfig clauses field requires
      else Some (OnlyInCombination field requiredField))"

text \<open>
  Lines 346 to 372: the array bound to the placeholder of \<^verbatim>\<open>IN\<close>, \<^verbatim>\<open><@\<close>, \<^verbatim>\<open>>@\<close>. The
  keys of the map of \<^verbatim>\<open>uniqueSliceElements\<close> are compared with Go's \<^verbatim>\<open>==\<close>: for
  \<^verbatim>\<open>[]time.Time\<close> the equality of \<open>'i Time\<close>, which compares the instant and the
  \<^verbatim>\<open>Location\<close> pointer.
\<close>

definition arrayValue ::
  "('f, 'i) stdlib \<Rightarrow> ('f, 'i Time) FilterToSpannerFieldConfig \<Rightarrow> string \<Rightarrow> ('f, 'i Time) anyval
     \<Rightarrow> error + ('f, 'i Time) anyval"
where
  "arrayValue lib fieldConfig operator mappedValue =
     (case ColumnType fieldConfig of
        FilterToSpannerFieldColumnTypeString \<Rightarrow>
          map_sum id (\<lambda>xs. AnyStrings (uniqueSliceElements (=) xs))
            (parseAnyToSlice asString asStrings mappedValue)
      | FilterToSpannerFieldColumnTypeInt64 \<Rightarrow>
          map_sum id (\<lambda>xs. AnyInt64s (uniqueSliceElements (=) xs))
            (parseAnyToSlice asInt64 asInt64s mappedValue)
      | FilterToSpannerFieldColumnTypeFloat64 \<Rightarrow>
          map_sum id (\<lambda>xs. AnyFloat64s (uniqueSliceElements (float64Eq lib) xs))
            (parseAnyToSlice asFloat64 asFloat64s mappedValue)
      | FilterToSpannerFieldColumnTypeTimestamp \<Rightarrow>
          map_sum id (\<lambda>xs. AnyTimes (uniqueSliceElements (=) xs))
            (parseAnyToSlice asTime asTimes mappedValue)
      | _ \<Rightarrow>
          Inl (OperatorNotSupportedForFieldType operator
                 (ColumnType_String (ColumnType fieldConfig))))"

text \<open>
  The three branches of the operator switch. Each returns the predicates to append to
  \<^verbatim>\<open>condAnds\<close> and the value to bind to \<^verbatim>\<open>paramName\<close>.
\<close>

definition arrayCase ::
  "('f, 'i) stdlib \<Rightarrow> ('f, 'i Time) FilterToSpannerFieldConfig \<Rightarrow> Clause \<Rightarrow> string \<Rightarrow> string
     \<Rightarrow> ('f, 'i Time) anyval \<Rightarrow> error + string list \<times> ('f, 'i Time) anyval"
where
  "arrayCase lib fieldConfig clause columnName pName mappedValue0 =
     (let operator = Operator clause in
      case arrayValue lib fieldConfig operator mappedValue0 of
        Inl e \<Rightarrow> Inl e
      | Inr mappedValue \<Rightarrow>
          (if operator = ''IN''
             then Inr ([columnName @ '' '' @ operator @ '' UNNEST(@'' @ pName @ '')''], mappedValue)
           else if operator = ''<@''
             then (if \<not> AllowContainedBy fieldConfig
                   then Inl (OperatorNotSupportedForField operator (Field clause))
                   else Inr ([''ARRAY_LENGTH('' @ columnName
                               @ '') = ARRAY_LENGTH(ARRAY(SELECT x FROM UNNEST('' @ columnName
                               @ '') AS x WHERE x IN UNNEST(@'' @ pName @ '')))''], mappedValue))
           else (if \<not> AllowContains fieldConfig
                 then Inl (OperatorNotSupportedForField operator (Field clause))
                 else Inr ([''ARRAY_LENGTH(ARRAY(SELECT x FROM UNNEST(@'' @ pName
                             @ '') AS x WHERE x IN UNNEST('' @ columnName
                             @ ''))) = ARRAY_LENGTH(@'' @ pName @ '')''], mappedValue))))"

text \<open>
  Lines 396 to 429: the operator, \<^verbatim>\<open>forceLowercase\<close> and the value after the prefix and
  suffix rewrite. \<^verbatim>\<open>mappedString[1:len(mappedString)-1]\<close> panics on a string of one byte.
\<close>

definition likeOperator :: "string \<Rightarrow> string" where
  "likeOperator operator = (if operator = ''!='' then '' NOT LIKE '' else '' LIKE '')"

definition matchRewrite ::
  "('f, 't) FilterToSpannerFieldConfig \<Rightarrow> string \<Rightarrow> ('f, 't) anyval
     \<Rightarrow> error + string \<times> bool \<times> ('f, 't) anyval"
where
  "matchRewrite fieldConfig operator mappedValue =
     (case mappedValue of
        AnyString mappedString \<Rightarrow>
          (let needsPrefixMatch = (AllowPrefixMatch fieldConfig \<and> HasSuffix mappedString ''*''
                 \<and> \<not> HasSuffix mappedString [CHR 0x5C, CHR ''*'']);
               needsSuffixMatch = (AllowSuffixMatch fieldConfig \<and> HasPrefix mappedString ''*'');
               escaped = escapePrefixSuffixSpecialChars mappedString in
           if needsPrefixMatch \<and> needsSuffixMatch then
             (if length escaped < 2 then Inl Panic
              else Inr (likeOperator operator, True,
                        AnyString (''%'' @ butlast (tl escaped) @ ''%'')))
           else if needsPrefixMatch then
             Inr (likeOperator operator, True, AnyString (butlast escaped @ ''%''))
           else if needsSuffixMatch then
             Inr (likeOperator operator, True, AnyString (''%'' @ tl escaped))
           else Inr (operator, False, mappedValue))
      | _ \<Rightarrow> Inr (operator, False, mappedValue))"

definition equalityCase ::
  "('f, 't) FilterToSpannerFieldConfig \<Rightarrow> Clause \<Rightarrow> string \<Rightarrow> string \<Rightarrow> ('f, 't) anyval
     \<Rightarrow> error + string list \<times> ('f, 't) anyval"
where
  "equalityCase fieldConfig clause columnName pName mappedValue0 =
     (if \<not> AllowNegation fieldConfig \<and> Operator clause = ''!=''
      then Inl (OperatorNotSupportedForField (Operator clause) (Field clause))
      else (case matchRewrite fieldConfig (Operator clause) mappedValue0 of
              Inl e \<Rightarrow> Inl e
            | Inr (operator, forceLowercase, mappedValue) \<Rightarrow>
                (if forceLowercase \<and> AllowCaseInsensitiveMatch fieldConfig
                 then Inr ([''LOWER('' @ columnName @ '')'' @ operator @ ''LOWER(@'' @ pName @ '')''],
                           mappedValue)
                 else Inr ([columnName @ operator @ ''@'' @ pName], mappedValue))))"

definition rangeCase ::
  "('f, 't) FilterToSpannerFieldConfig \<Rightarrow> Clause \<Rightarrow> string \<Rightarrow> string \<Rightarrow> ('f, 't) anyval
     \<Rightarrow> error + string list \<times> ('f, 't) anyval"
where
  "rangeCase fieldConfig clause columnName pName mappedValue =
     (if \<not> AllowRanges fieldConfig
      then Inl (OperatorNotSupportedForField (Operator clause) (Field clause))
      else (case ColumnType fieldConfig of
              FilterToSpannerFieldColumnTypeInt64 \<Rightarrow>
                Inr ([columnName @ Operator clause @ ''@'' @ pName], mappedValue)
            | FilterToSpannerFieldColumnTypeFloat64 \<Rightarrow>
                Inr ([columnName @ Operator clause @ ''@'' @ pName], mappedValue)
            | FilterToSpannerFieldColumnTypeTimestamp \<Rightarrow>
                Inr ([columnName @ Operator clause @ ''@'' @ pName], mappedValue)
            | _ \<Rightarrow>
                Inl (OperatorNotSupportedForFieldType (Operator clause)
                       (ColumnType_String (ColumnType fieldConfig)))))"

text \<open>Lines 328 to 331.\<close>

definition columnNameOf :: "('f, 't) FilterToSpannerFieldConfig \<Rightarrow> Clause \<Rightarrow> string" where
  "columnNameOf fieldConfig clause =
     (if ColumnName fieldConfig = [] then Field clause else ColumnName fieldConfig)"

text \<open>
  Lines 313 to 449, the body of the loop for a clause whose config is not ignored. An
  operator outside the three cases of the switch appends no predicate; the value is bound
  all the same (lines 451 and 452).
\<close>

definition clauseBody ::
  "('f, 'i) stdlib \<Rightarrow> ('f, 'i Time) FilterToSpannerFieldConfig \<Rightarrow> Clause list \<Rightarrow> Clause \<Rightarrow> nat
     \<Rightarrow> error + string list \<times> ('f, 'i Time) anyval"
where
  "clauseBody lib fieldConfig clauses clause paramIndex =
     (case requiresLoop fieldConfig clauses (Field clause) (Requires fieldConfig) of
        Some e \<Rightarrow> Inl e
      | None \<Rightarrow>
          (let columnName = columnNameOf fieldConfig clause in
           case mapValues lib fieldConfig paramIndex (Values clause) of
             Inl e \<Rightarrow> (if e = Panic then Inl Panic else Inl (FieldError (Field clause) e))
           | Inr mappedValue \<Rightarrow>
               (let operator = Operator clause in
                if length (Values clause) > 1 \<and> operator \<notin> set [''IN'', ''<@'', ''>@'']
                then Inl (NoMultipleValues operator (Field clause))
                else (let pName = paramName paramIndex in
                      if operator \<in> set [''IN'', ''<@'', ''>@'']
                        then arrayCase lib fieldConfig clause columnName pName mappedValue
                      else if operator \<in> set [''='', ''!='']
                        then equalityCase fieldConfig clause columnName pName mappedValue
                      else if operator \<in> set [''>='', ''<='', ''>'', ''<'']
                        then rangeCase fieldConfig clause columnName pName mappedValue
                      else Inr ([], mappedValue)))))"

text \<open>
  The loop over \<^verbatim>\<open>f.Clauses\<close> with its three variables \<^verbatim>\<open>condAnds\<close>, \<^verbatim>\<open>params\<close> and
  \<^verbatim>\<open>paramIndex\<close>; \<open>clauses\<close> is the whole of \<^verbatim>\<open>f.Clauses\<close>, which the body reads.
\<close>

type_synonym ('f, 't) loopState = "string list \<times> (string \<rightharpoonup> ('f, 't) anyval) \<times> nat"

fun clauseLoop ::
  "('f, 'i) stdlib \<Rightarrow> ('f, 'i Time) fieldConfigs \<Rightarrow> Clause list \<Rightarrow> Clause list
     \<Rightarrow> ('f, 'i Time) loopState \<Rightarrow> error + ('f, 'i Time) loopState"
where
  "clauseLoop lib fieldConfigs clauses [] state = Inr state"
| "clauseLoop lib fieldConfigs clauses (clause # rest) (condAnds, params, paramIndex) =
     (case resolveFieldConfig fieldConfigs clause of
        Inl e \<Rightarrow> Inl e
      | Inr fieldConfig \<Rightarrow>
          (if Ignore fieldConfig
           then clauseLoop lib fieldConfigs clauses rest (condAnds, params, paramIndex)
           else (case clauseBody lib fieldConfig clauses clause paramIndex of
                   Inl e \<Rightarrow> Inl e
                 | Inr (conds, mappedValue) \<Rightarrow>
                     clauseLoop lib fieldConfigs clauses rest
                       (condAnds @ conds, params(paramName paramIndex \<mapsto> mappedValue),
                        paramIndex + 1))))"

text \<open>Lines 455 to 468.\<close>

fun requiredLoop :: "('f, 't) fieldConfigs \<Rightarrow> Clause list \<Rightarrow> error option" where
  "requiredLoop [] clauses = None"
| "requiredLoop ((field, fieldConfig) # fieldConfigs) clauses =
     (if Required fieldConfig
         \<and> \<not> list_ex (\<lambda>clause. Field clause = field
                               \<or> Field clause \<in> set (Aliases fieldConfig)) clauses
      then Some (RequiredFieldMissing field)
      else requiredLoop fieldConfigs clauses)"

definition ToSpannerSQL ::
  "('f, 'i) stdlib \<Rightarrow> Filter \<Rightarrow> ('f, 'i Time) fieldConfigs
     \<Rightarrow> error + string list \<times> (string \<rightharpoonup> ('f, 'i Time) anyval)"
where
  "ToSpannerSQL lib f fieldConfigs =
     (case clauseLoop lib fieldConfigs (Clauses f) (Clauses f) ([], Map.empty, 0) of
        Inl e \<Rightarrow> Inl e
      | Inr (condAnds, params, paramIndex) \<Rightarrow>
          (case requiredLoop fieldConfigs (Clauses f) of
             Some e \<Rightarrow> Inl e
           | None \<Rightarrow> Inr (condAnds, params)))"

text \<open>
  A standard library whose parsers reject every string, for the examples below on
  \<^verbatim>\<open>STRING\<close> columns and on the boolean sentinel, which call no parser.
\<close>

definition rejectingLib :: "(unit, unit) stdlib" where
  "rejectingLib =
     \<lparr>ParseInt = (\<lambda>_. None), ParseFloat = (\<lambda>_. None), ParseBool = (\<lambda>_. None),
      ParseTime = (\<lambda>_. None), float64Eq = (=)\<rparr>"

text \<open>
  The standard library of a machine whose local zone is UTC, as far as the examples on
  \<^verbatim>\<open>TIMESTAMP\<close> columns call it; an instant is the number of seconds since the epoch.
  \<^verbatim>\<open>time.Parse\<close> of \<^verbatim>\<open>2023-06-01T10:00:00+05:30\<close> is the instant 04:30 UTC of that day in a
  \<^verbatim>\<open>Location\<close> that the call allocates (\<^verbatim>\<open>time.FixedZone("", 19800)\<close>: the offset is not
  the one of the local zone and not of whole hours); of \<^verbatim>\<open>2023-06-01T04:30:00Z\<close> it is the
  same instant with the \<^verbatim>\<open>nil\<close> pointer of UTC, \<open>Shared 0\<close>.
\<close>

definition utcZoneLib :: "(unit, int) stdlib" where
  "utcZoneLib =
     \<lparr>ParseInt = (\<lambda>_. None), ParseFloat = (\<lambda>_. None), ParseBool = (\<lambda>_. None),
      ParseTime = (\<lambda>s. if s = ''2023-06-01T10:00:00+05:30'' then Some (1685593800, None)
                        else if s = ''2023-06-01T04:30:00Z'' then Some (1685593800, Some 0)
                        else None),
      float64Eq = (=)\<rparr>"

section \<open>The boolean-query lowerer (package elastic)\<close>

text \<open>
  The part of \<^verbatim>\<open>types.Query\<close> that the generator fills: a \<^verbatim>\<open>bool\<close> query with one of
  \<^verbatim>\<open>must\<close>, \<^verbatim>\<open>should\<close>, \<^verbatim>\<open>must_not\<close>, a \<^verbatim>\<open>term\<close>, a \<^verbatim>\<open>terms\<close>, a \<^verbatim>\<open>range\<close>, \<^verbatim>\<open>match_all\<close>
  and \<^verbatim>\<open>match_none\<close>. A range query has the four optional bounds \<^verbatim>\<open>Lt\<close>, \<^verbatim>\<open>Lte\<close>,
  \<^verbatim>\<open>Gt\<close>, \<^verbatim>\<open>Gte\<close>.
\<close>

datatype 'f RangeQuery =
    NumberRangeQuery "'f option" "'f option" "'f option" "'f option"
  | DateRangeQuery "string option" "string option" "string option" "string option"

datatype 'f Query =
    BoolMust "'f Query list"
  | BoolShould "'f Query list"
  | BoolMustNot "'f Query list"
  | Term string string
  | Terms string "string list"
  | Range string "'f RangeQuery"
  | MatchAll
  | MatchNone

text \<open>
  The two hooks return a string and an error, as in Go; the caller reads the string also
  when the error is not \<^verbatim>\<open>nil\<close>.
\<close>

record QueryGenerator =
  mapFieldName :: "string \<Rightarrow> string \<times> error option"
  mapFieldValue :: "string \<Rightarrow> string \<Rightarrow> string \<times> error option"

definition defaultFieldNameMapper :: "string \<Rightarrow> string \<times> error option" where
  "defaultFieldNameMapper name = (name, None)"

definition defaultFieldValueMapper :: "string \<Rightarrow> string \<Rightarrow> string \<times> error option" where
  "defaultFieldValueMapper name v = (v, None)"

text \<open>\<^verbatim>\<open>NewQueryGenerator()\<close> without options.\<close>

definition NewQueryGenerator :: QueryGenerator where
  "NewQueryGenerator =
     \<lparr>mapFieldName = defaultFieldNameMapper, mapFieldValue = defaultFieldValueMapper\<rparr>"

text \<open>\<^verbatim>\<open>convertRangeNode\<close> of the package \<^verbatim>\<open>elastic\<close>, on the value of the literal.\<close>

definition elasticConvertRangeNode ::
  "('f, 'i) stdlib \<Rightarrow> RangeOperator \<Rightarrow> string \<Rightarrow> error + 'f RangeQuery"
where
  "elasticConvertRangeNode lib op v =
     (case ParseFloat lib v of
        Some fVal \<Rightarrow>
          Inr (case op of
                 RangeOperatorLt \<Rightarrow> NumberRangeQuery (Some fVal) None None None
               | RangeOperatorLte \<Rightarrow> NumberRangeQuery None (Some fVal) None None
               | RangeOperatorGt \<Rightarrow> NumberRangeQuery None None (Some fVal) None
               | RangeOperatorGte \<Rightarrow> NumberRangeQuery None None None (Some fVal)
               | RangeOperatorIllegal \<Rightarrow> NumberRangeQuery None None None None)
      | None \<Rightarrow>
          (case ParseTime lib v of
             None \<Rightarrow> Inl ExpectedNumberOrDate
           | Some t \<Rightarrow>
               Inr (case op of
                      RangeOperatorLt \<Rightarrow> DateRangeQuery (Some v) None None None
                    | RangeOperatorLte \<Rightarrow> DateRangeQuery None (Some v) None None
                    | RangeOperatorGt \<Rightarrow> DateRangeQuery None None (Some v) None
                    | RangeOperatorGte \<Rightarrow> DateRangeQuery None None None (Some v)
                    | RangeOperatorIllegal \<Rightarrow> DateRangeQuery None None None None)))"

text \<open>
  The nodes of the AST are Go pointers, and \<^verbatim>\<open>convertNodeToQuery\<close> assigns to
  \<^verbatim>\<open>lit.Value\<close> (lines 135, 157 and 180). The functions below therefore return, with the
  result, the tree as it is after the call. The parser builds a tree, in which no node
  is shared, so the tree after the call is the tree before with the visited literals
  replaced.

  \<open>termsLoop\<close> is the loop over the children of the \<^verbatim>\<open>OrNode\<close> under an \<^verbatim>\<open>IsNode\<close>
  (lines 130 to 140): the children after the loop, and the values or the error.
\<close>

fun termsLoop :: "QueryGenerator \<Rightarrow> string \<Rightarrow> Node list \<Rightarrow> Node list \<times> (error + string list)" where
  "termsLoop q id' [] = ([], Inr [])"
| "termsLoop q id' (LiteralNode v # rest) =
     (case mapFieldValue q id' v of
        (v', Some err) \<Rightarrow> (LiteralNode v' # rest, Inl (Wrapped id' err))
      | (v', None) \<Rightarrow>
          (case termsLoop q id' rest of
             (rest', Inl e) \<Rightarrow> (LiteralNode v' # rest', Inl e)
           | (rest', Inr vals) \<Rightarrow> (LiteralNode v' # rest', Inr (v' # vals))))"
| "termsLoop q id' (child # rest) = (child # rest, Inl (InvalidSyntax id'))"

fun convertNodeToQuery ::
  "QueryGenerator \<Rightarrow> ('f, 'i) stdlib \<Rightarrow> Node \<Rightarrow> string \<Rightarrow> Node \<times> (error + 'f Query)"
and convertChildren ::
  "QueryGenerator \<Rightarrow> ('f, 'i) stdlib \<Rightarrow> Node list \<Rightarrow> string
     \<Rightarrow> Node list \<times> (error + 'f Query list)"
where
  "convertNodeToQuery q lib (AndNode nodes) prefix =
     (case convertChildren q lib nodes prefix of
        (nodes', Inl e) \<Rightarrow> (AndNode nodes', Inl e)
      | (nodes', Inr clauses) \<Rightarrow> (AndNode nodes', Inr (BoolMust clauses)))"
| "convertNodeToQuery q lib (OrNode nodes) prefix =
     (case convertChildren q lib nodes prefix of
        (nodes', Inl e) \<Rightarrow> (OrNode nodes', Inl e)
      | (nodes', Inr clauses) \<Rightarrow> (OrNode nodes', Inr (BoolShould clauses)))"
| "convertNodeToQuery q lib (NotNode expr) prefix =
     (case convertNodeToQuery q lib expr prefix of
        (expr', Inl e) \<Rightarrow> (NotNode expr', Inl e)
      | (expr', Inr query) \<Rightarrow> (NotNode expr', Inr (BoolMustNot [query])))"
| "convertNodeToQuery q lib (IsNode identifier val) prefix =
     (case mapFieldName q (prefix @ identifier) of
        (id', Some err) \<Rightarrow> (IsNode identifier val, Inl (Wrapped id' err))
      | (id', None) \<Rightarrow>
          (case val of
             NestedNode expr \<Rightarrow>
               (case convertNodeToQuery q lib expr (id' @ ''.'') of
                  (expr', r) \<Rightarrow> (IsNode identifier (NestedNode expr'), r))
           | OrNode nodes \<Rightarrow>
               (case termsLoop q id' nodes of
                  (nodes', Inl e) \<Rightarrow> (IsNode identifier (OrNode nodes'), Inl e)
                | (nodes', Inr vals) \<Rightarrow> (IsNode identifier (OrNode nodes'), Inr (Terms id' vals)))
           | LiteralNode v \<Rightarrow>
               (case mapFieldValue q id' v of
                  (v', Some err) \<Rightarrow> (IsNode identifier (LiteralNode v'), Inl (Wrapped id' err))
                | (v', None) \<Rightarrow> (IsNode identifier (LiteralNode v'), Inr (Term id' v')))
           | _ \<Rightarrow> (IsNode identifier val, Inl (ExpectedLiteralNode id'))))"
| "convertNodeToQuery q lib (RangeNode identifier op val) prefix =
     (case mapFieldName q (prefix @ identifier) of
        (id', Some err) \<Rightarrow> (RangeNode identifier op val, Inl err)
      | (id', None) \<Rightarrow>
          (case val of
             LiteralNode v \<Rightarrow>
               (case mapFieldValue q id' v of
                  (v', Some err) \<Rightarrow>
                    (RangeNode identifier op (LiteralNode v'), Inl (Wrapped id' err))
                | (v', None) \<Rightarrow>
                    (RangeNode identifier op (LiteralNode v'),
                     (case elasticConvertRangeNode lib op v' of
                        Inl e \<Rightarrow> Inl (Wrapped id' e)
                      | Inr rq \<Rightarrow> Inr (Range id' rq))))
           | _ \<Rightarrow> (RangeNode identifier op val, Inl (ExpectedLiteralNode id'))))"
| "convertNodeToQuery q lib (LiteralNode v) prefix =
     (if v \<notin> set [''true'', ''false'']
      then (LiteralNode v, Inl (OnlyBooleanLiterals v))
      else if v = ''true'' then (LiteralNode v, Inr MatchAll)
      else (LiteralNode v, Inr MatchNone))"
| "convertNodeToQuery q lib (NestedNode expr) prefix =
     (NestedNode expr, Inl (UnexpectedNodeType ''*kqlfilter.NestedNode''))"
| "convertChildren q lib [] prefix = ([], Inr [])"
| "convertChildren q lib (child # rest) prefix =
     (case convertNodeToQuery q lib child prefix of
        (child', Inl e) \<Rightarrow> (child' # rest, Inl e)
      | (child', Inr query) \<Rightarrow>
          (case convertChildren q lib rest prefix of
             (rest', Inl e) \<Rightarrow> (child' # rest', Inl e)
           | (rest', Inr clauses) \<Rightarrow> (child' # rest', Inr (query # clauses))))"

text \<open>\<^verbatim>\<open>ConvertAST\<close>; a \<^verbatim>\<open>nil\<close> root falls to the \<^verbatim>\<open>default\<close> branch of the type switch.\<close>

fun ConvertAST ::
  "QueryGenerator \<Rightarrow> ('f, 'i) stdlib \<Rightarrow> Node option \<Rightarrow> Node option \<times> (error + 'f Query)"
where
  "ConvertAST q lib None = (None, Inl (UnexpectedNodeType ''<nil>''))"
| "ConvertAST q lib (Some root) =
     (case convertNodeToQuery q lib root [] of (root', r) \<Rightarrow> (Some root', r))"

text \<open>
  The shape of a tree: its nodes and identifiers, every literal value replaced by the
  empty string.
\<close>

fun shape :: "Node \<Rightarrow> Node" where
  "shape (LiteralNode v) = LiteralNode []"
| "shape (IsNode identifier val) = IsNode identifier (shape val)"
| "shape (RangeNode identifier op val) = RangeNode identifier op (shape val)"
| "shape (AndNode nodes) = AndNode (map shape nodes)"
| "shape (OrNode nodes) = OrNode (map shape nodes)"
| "shape (NotNode expr) = NotNode (shape expr)"
| "shape (NestedNode expr) = NestedNode (shape expr)"

text \<open>
  The string of one backslash, and the escaping as the specification words it: every
  backslash, underscore and percent character is preceded by a backslash.
\<close>

abbreviation (input) backslash :: string where
  "backslash \<equiv> [CHR 0x5C]"

definition escapeEach :: "string \<Rightarrow> string" where
  "escapeEach s =
     concat (map (\<lambda>ch. if ch = CHR 0x5C \<or> ch = CHR ''_'' \<or> ch = CHR ''%''
                         then [CHR 0x5C, ch] else [ch]) s)"

text \<open>
  The specification's words for the array of an \<^verbatim>\<open>IN\<close> clause. First-occurrence order:
  the elements of the input that no earlier element of the input equals, in the order of
  the input (\<open>earlier\<close> holds the elements already passed). No duplicates: no element
  equals a later one. \<open>eq\<close> is the equality of the element type.
\<close>

fun firstOccurrencesFrom :: "('a \<Rightarrow> 'a \<Rightarrow> bool) \<Rightarrow> 'a list \<Rightarrow> 'a list \<Rightarrow> 'a list" where
  "firstOccurrencesFrom eq earlier [] = []"
| "firstOccurrencesFrom eq earlier (x # xs) =
     (if list_ex (\<lambda>e. eq e x) earlier then firstOccurrencesFrom eq (earlier @ [x]) xs
      else x # firstOccurrencesFrom eq (earlier @ [x]) xs)"

definition firstOccurrences :: "('a \<Rightarrow> 'a \<Rightarrow> bool) \<Rightarrow> 'a list \<Rightarrow> 'a list" where
  "firstOccurrences eq xs = firstOccurrencesFrom eq [] xs"

fun noDuplicates :: "('a \<Rightarrow> 'a \<Rightarrow> bool) \<Rightarrow> 'a list \<Rightarrow> bool" where
  "noDuplicates eq [] = True"
| "noDuplicates eq (y # ys) = (list_all (\<lambda>z. \<not> eq y z) ys \<and> noDuplicates eq ys)"

text \<open>
  Whether the loop of \<^verbatim>\<open>ToSpannerSQL\<close> skips a clause: its field resolves to a config
  with \<^verbatim>\<open>Ignore\<close> set.
\<close>

definition clauseIgnored :: "('f, 't) fieldConfigs \<Rightarrow> Clause \<Rightarrow> bool" where
  "clauseIgnored fieldConfigs clause =
     (case resolveFieldConfig fieldConfigs clause of Inl e \<Rightarrow> False | Inr fc \<Rightarrow> Ignore fc)"

section \<open>Auxiliary lemmas\<close>

subsection \<open>The loops of convertAndNode\<close>

lemma convertAndChildren_projected:
  "map convertAndChild nodes = map Inr fs \<Longrightarrow>
   convertAndChildren nodes clauses = Inr (clauses @ concat (map Clauses fs))"
proof (induction nodes arbitrary: fs clauses)
  case Nil
  then show ?case by simp
next
  case (Cons node nodes)
  then obtain f fs' where fs: "fs = f # fs'" "convertAndChild node = Inr f"
    "map convertAndChild nodes = map Inr fs'"
    by (cases fs) auto
  with Cons.IH [of fs' "clauses @ Clauses f"] show ?case by simp
qed

lemma fieldCountLoop_exceeded:
  "\<forall>fld. fieldCounts fld \<le> 2 \<Longrightarrow>
   fieldCountLoop clauses fieldCounts =
     (if \<exists>fld. 2 < fieldCounts fld + count_list (map Field clauses) fld
      then Some FieldCountExceeded else None)"
proof (induction clauses arbitrary: fieldCounts)
  case Nil
  then show ?case by (auto simp: not_less)
next
  case (Cons clause clauses)
  let ?c' = "fieldCounts(Field clause := fieldCounts (Field clause) + 1)"
  show ?case
  proof (cases "2 < ?c' (Field clause)")
    case True
    then have "2 < fieldCounts (Field clause) + count_list (map Field (clause # clauses)) (Field clause)"
      by simp
    then have "\<exists>fld. 2 < fieldCounts fld + count_list (map Field (clause # clauses)) fld"
      by blast
    with True show ?thesis by (simp add: Let_def)
  next
    case False
    then have inv: "\<forall>fld. ?c' fld \<le> 2"
      using Cons.prems by auto
    have eq: "\<And>fld. ?c' fld + count_list (map Field clauses) fld
        = fieldCounts fld + count_list (map Field (clause # clauses)) fld"
      by simp
    from False have "fieldCountLoop (clause # clauses) fieldCounts = fieldCountLoop clauses ?c'"
      by (simp add: Let_def)
    also have "\<dots> = (if \<exists>fld. 2 < ?c' fld + count_list (map Field clauses) fld
      then Some FieldCountExceeded else None)"
      using Cons.IH [OF inv] .
    finally show ?thesis unfolding eq .
  qed
qed

subsection \<open>Placeholder names\<close>

lemma formatNat_nonempty: "formatNat n \<noteq> []"
  by (subst formatNat.simps) simp

lemma digit_inj: "a < 10 \<Longrightarrow> b < 10 \<Longrightarrow> ''0123456789'' ! a = ''0123456789'' ! b \<Longrightarrow> a = (b::nat)"
  using nth_eq_iff_index_eq [of "''0123456789''" a b] by simp

lemma formatNat_inj: "formatNat n = formatNat m \<Longrightarrow> n = m"
proof (induction n arbitrary: m rule: formatNat.induct)
  case (1 n)
  show ?case
  proof (cases "n < 10")
    case n: True
    show ?thesis
    proof (cases "m < 10")
      case True
      with n "1.prems" show ?thesis
        by (simp add: formatNat.simps [of n] formatNat.simps [of m] digit_inj)
    next
      case False
      with n "1.prems" formatNat_nonempty [of "m div 10"] show ?thesis
        by (simp add: formatNat.simps [of n] formatNat.simps [of m])
    qed
  next
    case n: False
    show ?thesis
    proof (cases "m < 10")
      case True
      with n "1.prems" formatNat_nonempty [of "n div 10"] show ?thesis
        by (simp add: formatNat.simps [of n] formatNat.simps [of m])
    next
      case False
      with n "1.prems" have eq: "formatNat (n div 10) = formatNat (m div 10)"
        and d: "''0123456789'' ! (n mod 10) = ''0123456789'' ! (m mod 10)"
        by (simp_all add: formatNat.simps [of n] formatNat.simps [of m])
      from "1.IH" [OF n eq] have "n div 10 = m div 10" .
      moreover from d have "n mod 10 = m mod 10"
        by (intro digit_inj) simp_all
      ultimately show ?thesis
        by (metis div_mult_mod_eq)
    qed
  qed
qed

lemma paramName_inj: "paramName i = paramName j \<longleftrightarrow> i = j"
  by (auto simp: paramName_def dest: formatNat_inj)


subsection \<open>The loop of ToSpannerSQL\<close>

lemma arrayCase_one: "arrayCase lib fc c col p v = Inr (cs, w) \<Longrightarrow> length cs = 1"
  by (auto simp: arrayCase_def Let_def split: sum.splits if_splits)

lemma equalityCase_one: "equalityCase fc c col p v = Inr (cs, w) \<Longrightarrow> length cs = 1"
  by (auto simp: equalityCase_def split: sum.splits if_splits prod.splits)

lemma rangeCase_one: "rangeCase fc c col p v = Inr (cs, w) \<Longrightarrow> length cs = 1"
  by (auto simp: rangeCase_def split: FilterToSpannerFieldColumnType.splits if_splits)

lemma clauseBody_one:
  assumes "clauseBody lib fc all c i = Inr (cs, w)"
    and "Operator c \<in> set [''='', ''!='', ''<'', ''<='', ''>'', ''>='', ''IN'', ''<@'', ''>@'']"
  shows "length cs = 1"
proof -
  from assms obtain col v where
    "arrayCase lib fc c col (paramName i) v = Inr (cs, w)
     \<or> equalityCase fc c col (paramName i) v = Inr (cs, w)
     \<or> rangeCase fc c col (paramName i) v = Inr (cs, w)"
    unfolding clauseBody_def Let_def
    by (simp split: option.splits sum.splits if_splits) blast+
  then show ?thesis
    by (elim disjE) (erule arrayCase_one equalityCase_one rangeCase_one)+
qed

lemma clauseLoop_success:
  assumes "clauseLoop lib cfgs all cs (conds, params, i) = Inr (conds', params', i')"
  shows "\<exists>rs. length rs = length (filter (\<lambda>c. \<not> clauseIgnored cfgs c) cs)
     \<and> i' = i + length rs \<and> conds' = conds @ concat (map fst rs)
     \<and> (\<forall>j<length rs. \<exists>fc.
           resolveFieldConfig cfgs (filter (\<lambda>c. \<not> clauseIgnored cfgs c) cs ! j) = Inr fc
         \<and> clauseBody lib fc all (filter (\<lambda>c. \<not> clauseIgnored cfgs c) cs ! j) (i + j) = Inr (rs ! j)
         \<and> params' (paramName (i + j)) = Some (snd (rs ! j)))
     \<and> (\<forall>k. (\<forall>j<length rs. k \<noteq> paramName (i + j)) \<longrightarrow> params' k = params k)"
  using assms
proof (induction cs arbitrary: conds params i)
  case Nil
  then show ?case by simp
next
  case (Cons c cs)
  let ?ni = "filter (\<lambda>c. \<not> clauseIgnored cfgs c)"
  from Cons.prems obtain fc where fc: "resolveFieldConfig cfgs c = Inr fc"
    by (cases "resolveFieldConfig cfgs c") auto
  show ?case
  proof (cases "Ignore fc")
    case True
    with fc Cons.prems have "clauseLoop lib cfgs all cs (conds, params, i) = Inr (conds', params', i')"
      by simp
    from Cons.IH [OF this] True fc show ?thesis
      by (simp add: clauseIgnored_def)
  next
    case False
    with fc Cons.prems obtain cnds v where body: "clauseBody lib fc all c i = Inr (cnds, v)"
      and rest: "clauseLoop lib cfgs all cs (conds @ cnds, params(paramName i \<mapsto> v), i + 1)
                   = Inr (conds', params', i')"
      by (cases "clauseBody lib fc all c i") auto
    from Cons.IH [OF rest] obtain rs where rs:
      "length rs = length (?ni cs)" "i' = i + 1 + length rs"
      "conds' = (conds @ cnds) @ concat (map fst rs)"
      "\<And>j. j < length rs \<Longrightarrow> \<exists>fc.
           resolveFieldConfig cfgs (?ni cs ! j) = Inr fc
         \<and> clauseBody lib fc all (?ni cs ! j) (i + 1 + j) = Inr (rs ! j)
         \<and> params' (paramName (i + 1 + j)) = Some (snd (rs ! j))"
      "\<And>k. (\<forall>j<length rs. k \<noteq> paramName (i + 1 + j)) \<Longrightarrow> params' k = (params(paramName i \<mapsto> v)) k"
      by blast
    have ni: "?ni (c # cs) = c # ?ni cs"
      using fc False by (simp add: clauseIgnored_def)
    let ?rs = "(cnds, v) # rs"
    have 1: "length ?rs = length (?ni (c # cs))" using rs(1) ni by simp
    have 2: "i' = i + length ?rs" using rs(2) by simp
    have 3: "conds' = conds @ concat (map fst ?rs)" using rs(3) by simp
    have first: "params' (paramName i) = Some v"
      using rs(5) [of "paramName i"] by (simp add: paramName_inj)
    have 4: "\<exists>fc. resolveFieldConfig cfgs (?ni (c # cs) ! j) = Inr fc
         \<and> clauseBody lib fc all (?ni (c # cs) ! j) (i + j) = Inr (?rs ! j)
         \<and> params' (paramName (i + j)) = Some (snd (?rs ! j))" if "j < length ?rs" for j
    proof (cases j)
      case 0
      with fc body first ni show ?thesis by auto
    next
      case (Suc j')
      with that have "j' < length rs" by simp
      from rs(4) [OF this] Suc ni show ?thesis by simp
    qed
    have 5: "params' k = params k" if "\<forall>j<length ?rs. k \<noteq> paramName (i + j)" for k
    proof -
      from that have k0: "k \<noteq> paramName i" by auto
      have "\<forall>j<length rs. k \<noteq> paramName (i + 1 + j)"
      proof (intro allI impI)
        fix j assume "j < length rs"
        then have "Suc j < length ?rs" by simp
        with that have "k \<noteq> paramName (i + Suc j)" by blast
        then show "k \<noteq> paramName (i + 1 + j)" by simp
      qed
      from rs(5) [OF this] k0 show ?thesis by simp
    qed
    from 1 2 3 4 5 show ?thesis by blast
  qed
qed


lemma concat_singletons:
  "(\<And>x. x \<in> set xs \<Longrightarrow> f x = [hd (f x)]) \<Longrightarrow> concat (map f xs) = map (\<lambda>x. hd (f x)) xs"
proof (induction xs)
  case Nil
  then show ?case by simp
next
  case (Cons x xs)
  from Cons.prems [of x] have "f x = [hd (f x)]" by simp
  moreover from Cons have "concat (map f xs) = map (\<lambda>x. hd (f x)) xs" by simp
  ultimately show ?case by simp
qed

lemmas spanner_eval =
  ToSpannerSQL_def resolveFieldConfig_def clauseBody_def mapValues_def convertValue_def
  arrayCase_def arrayValue_def equalityCase_def rangeCase_def matchRewrite_def likeOperator_def
  parseAnyToSlice_def uniqueSliceElements_def escapePrefixSuffixSpecialChars_def ReplaceAll_def
  HasSuffix_def HasPrefix_def columnNameOf_def paramName_def formatNat.simps zeroFieldConfig_def Let_def

lemma clauseBody_switch:
  assumes "requiresLoop fc all (Field c) (Requires fc) = None"
    and "mapValues lib fc i (Values c) = Inr mv"
    and "length (Values c) \<le> 1 \<or> Operator c \<in> set [''IN'', ''<@'', ''>@'']"
  shows "clauseBody lib fc all c i =
     (if Operator c \<in> set [''IN'', ''<@'', ''>@'']
        then arrayCase lib fc c (columnNameOf fc c) (paramName i) mv
      else if Operator c \<in> set [''='', ''!='']
        then equalityCase fc c (columnNameOf fc c) (paramName i) mv
      else if Operator c \<in> set [''>='', ''<='', ''>'', ''<'']
        then rangeCase fc c (columnNameOf fc c) (paramName i) mv
      else Inr ([], mv))"
  using assms unfolding clauseBody_def Let_def
  by (auto simp: not_less)

lemma clauseBody_Inr:
  assumes "clauseBody lib fc all c i = Inr r"
  shows "requiresLoop fc all (Field c) (Requires fc) = None
     \<and> (\<exists>mv. mapValues lib fc i (Values c) = Inr mv)
     \<and> (length (Values c) \<le> 1 \<or> Operator c \<in> set [''IN'', ''<@'', ''>@''])"
  using assms unfolding clauseBody_def Let_def
  by (simp add: not_less split: option.splits sum.splits if_splits)

lemma ToSpannerSQL_clause:
  assumes ok: "ToSpannerSQL lib f cfgs = Inr (condAnds, params)"
    and c: "c \<in> set (Clauses f)"
    and fc: "resolveFieldConfig cfgs c = Inr fc" "\<not> Ignore fc"
  shows "\<exists>i conds v. clauseBody lib fc (Clauses f) c i = Inr (conds, v)
     \<and> set conds \<subseteq> set condAnds \<and> params (paramName i) = Some v"
proof -
  let ?ni = "filter (\<lambda>c. \<not> clauseIgnored cfgs c) (Clauses f)"
  from ok obtain i' where
    "clauseLoop lib cfgs (Clauses f) (Clauses f) ([], Map.empty, 0) = Inr (condAnds, params, i')"
    by (auto simp: ToSpannerSQL_def split: sum.splits option.splits)
  from clauseLoop_success [OF this] obtain rs where rs:
    "length rs = length ?ni" "condAnds = concat (map fst rs)"
    "\<And>j. j < length rs \<Longrightarrow> \<exists>fc. resolveFieldConfig cfgs (?ni ! j) = Inr fc
         \<and> clauseBody lib fc (Clauses f) (?ni ! j) j = Inr (rs ! j)
         \<and> params (paramName j) = Some (snd (rs ! j))"
    by auto
  from c fc have "c \<in> set ?ni" by (simp add: clauseIgnored_def)
  then obtain j where j: "j < length ?ni" "?ni ! j = c"
    unfolding in_set_conv_nth by blast
  with rs(1) have jr: "j < length rs" by simp
  from rs(3) [OF jr] j(2) fc(1) have
    body: "clauseBody lib fc (Clauses f) c j = Inr (fst (rs ! j), snd (rs ! j))"
    and par: "params (paramName j) = Some (snd (rs ! j))"
    by auto
  from jr have "rs ! j \<in> set rs" by simp
  then have "set (fst (rs ! j)) \<subseteq> set condAnds"
    unfolding rs(2) by auto
  with body par show ?thesis by blast
qed

lemma ToSpannerSQL_first_error:
  assumes "resolveFieldConfig cfgs c = Inr fc" "\<not> Ignore fc"
    and "clauseBody lib fc (c # rest) c 0 = Inl e"
  shows "ToSpannerSQL lib \<lparr>Clauses = c # rest\<rparr> cfgs = Inl e"
  using assms by (simp add: ToSpannerSQL_def)


lemma rangeCase_Inr:
  "rangeCase fc c col p mv = Inr r \<longleftrightarrow>
     AllowRanges fc
     \<and> ColumnType fc \<in> {FilterToSpannerFieldColumnTypeInt64, FilterToSpannerFieldColumnTypeFloat64,
                          FilterToSpannerFieldColumnTypeTimestamp}
     \<and> r = ([col @ Operator c @ ''@'' @ p], mv)"
  by (cases "ColumnType fc") (auto simp: rangeCase_def)

lemma range_not_other:
  "op \<in> set [''<'', ''<='', ''>'', ''>=''] \<Longrightarrow>
     op \<notin> set [''IN'', ''<@'', ''>@''] \<and> op \<notin> set [''='', ''!='']
     \<and> op \<in> set [''>='', ''<='', ''>'', ''<'']"
  by auto


lemma escape_escapeEach: "escapePrefixSuffixSpecialChars s = escapeEach s"
  by (induction s) (simp_all add: escapePrefixSuffixSpecialChars_def ReplaceAll_def escapeEach_def)

lemma HasSuffix_star: "HasSuffix v ''*'' \<longleftrightarrow> v \<noteq> [] \<and> last v = CHR ''*''"
proof (cases v rule: rev_cases)
  case Nil
  then show ?thesis by (simp add: HasSuffix_def)
next
  case (snoc xs x)
  then show ?thesis by (auto simp: HasSuffix_def)
qed

lemma butlast_escape:
  assumes "HasSuffix v ''*''"
  shows "butlast (escapePrefixSuffixSpecialChars v) = escapeEach (butlast v)"
proof -
  from assms obtain xs where v: "v = xs @ ''*''"
    unfolding HasSuffix_star by (cases v rule: rev_cases) auto
  have "escapeEach (xs @ ''*'') = escapeEach xs @ ''*''"
    by (simp add: escapeEach_def)
  with v show ?thesis by (simp add: escape_escapeEach)
qed

lemma matchRewrite_prefix:
  assumes "AllowPrefixMatch fc" "HasSuffix v ''*''" "\<not> HasSuffix v (backslash @ ''*'')"
    and "\<not> (AllowSuffixMatch fc \<and> HasPrefix v ''*'')"
  shows "matchRewrite fc op (AnyString v)
     = Inr (likeOperator op, True, AnyString (escapeEach (butlast v) @ ''%''))"
  using assms butlast_escape [of v] by (auto simp: matchRewrite_def Let_def)


lemma mapValues_string:
  "ColumnType fc = FilterToSpannerFieldColumnTypeString \<Longrightarrow> MapValue fc = None \<Longrightarrow>
   mapValues lib fc p [v] = Inr (AnyString v)"
  by (simp add: mapValues_def convertValue_def)

text \<open>
  The parameter index of the clause only names the locations that \<^verbatim>\<open>time.Parse\<close>
  allocates: a value that maps to a string does so whatever the index.
\<close>

lemma convertValue_string_index:
  "convertValue lib fc p i s = Inr (AnyString v) \<Longrightarrow> convertValue lib fc p' i' s = Inr (AnyString v)"
  by (cases "ColumnType fc")
     (auto simp: convertValue_def convertTimestamp_def split: option.splits prod.splits)

lemma mapValues_string_index:
  assumes "mapValues lib fc p vals = Inr (AnyString v)"
  shows "mapValues lib fc p' vals = Inr (AnyString v)"
proof -
  obtain r where r: "(case MapValue fc of
              Some hook \<Rightarrow> map_sum id AnySlice (convertEach hook vals)
            | None \<Rightarrow> Inr (AnyStrings vals)) = r" by simp
  show ?thesis
  proof (cases r)
    case (Inl e)
    with r assms show ?thesis by (simp add: mapValues_def)
  next
    case (Inr ov0)
    show ?thesis
    proof (cases "unwrapSlice ov0")
      case (AnyString s)
      with r Inr assms convertValue_string_index [of lib fc p 0 s v p' 0] show ?thesis
        by (simp add: mapValues_def Let_def split: if_splits)
    next
      case (AnyStrings ss)
      have "map_sum id AnyTimes x \<noteq> Inr (AnyString v)" for x :: "error + 'b Time list"
        by (cases x) simp_all
      with AnyStrings r Inr assms show ?thesis
        by (cases "ColumnType fc")
           (auto simp: mapValues_def Let_def split: if_splits)
    qed (use r Inr assms in \<open>auto simp: mapValues_def Let_def split: if_splits\<close>)
  qed
qed

text \<open>
  On a \<^verbatim>\<open>STRING\<close> column with no hook, what \<^verbatim>\<open>parseAnyToSlice[string]\<close> reads from the
  mapped value is the list of the values of the clause.
\<close>

lemma mapValues_string_column:
  assumes "ColumnType fc = FilterToSpannerFieldColumnTypeString" "MapValue fc = None"
    and "mapValues lib fc p vals = Inr mv"
  shows "parseAnyToSlice asString asStrings mv = Inr vals"
proof (cases vals)
  case Nil
  with assms show ?thesis
    by (auto simp: mapValues_def Let_def parseAnyToSlice_def split: if_splits)
next
  case (Cons x xs)
  with assms show ?thesis
    by (cases xs) (auto simp: mapValues_def convertValue_def Let_def parseAnyToSlice_def split: if_splits)
qed



lemma equals_not_other:
  "op = ''='' \<Longrightarrow> op \<notin> set [''IN'', ''<@'', ''>@''] \<and> op \<in> set [''='', ''!='']"
  by simp

lemma uniqueLoop_firstOccurrencesFrom:
  assumes "transp eq"
    and "\<forall>x. list_ex (\<lambda>e. eq e x) earlier \<longleftrightarrow> list_ex (\<lambda>k. eq k x) seen"
  shows "uniqueLoop eq xs out seen = out @ firstOccurrencesFrom eq earlier xs"
  using assms(2)
proof (induction xs arbitrary: out seen earlier)
  case Nil
  then show ?case by simp
next
  case (Cons x xs)
  show ?case
  proof (cases "list_ex (\<lambda>k. eq k x) seen")
    case True
    with Cons.prems have e: "list_ex (\<lambda>e. eq e x) earlier" by simp
    have "\<forall>y. list_ex (\<lambda>e. eq e y) (earlier @ [x]) \<longleftrightarrow> list_ex (\<lambda>k. eq k y) seen"
    proof (intro allI iffI)
      fix y assume "list_ex (\<lambda>e. eq e y) (earlier @ [x])"
      then consider "list_ex (\<lambda>e. eq e y) earlier" | "eq x y"
        by (auto simp: list_ex_iff)
      then show "list_ex (\<lambda>k. eq k y) seen"
      proof cases
        case 1
        with Cons.prems show ?thesis by simp
      next
        case 2
        from True obtain k where "k \<in> set seen" "eq k x" by (auto simp: list_ex_iff)
        with 2 assms(1) have "eq k y" by (meson transpD)
        with \<open>k \<in> set seen\<close> show ?thesis by (auto simp: list_ex_iff)
      qed
    next
      fix y assume "list_ex (\<lambda>k. eq k y) seen"
      with Cons.prems show "list_ex (\<lambda>e. eq e y) (earlier @ [x])"
        by (auto simp: list_ex_iff)
    qed
    from Cons.IH [OF this] True e show ?thesis by simp
  next
    case False
    with Cons.prems have e: "\<not> list_ex (\<lambda>e. eq e x) earlier" by simp
    have "\<forall>y. list_ex (\<lambda>e. eq e y) (earlier @ [x]) \<longleftrightarrow> list_ex (\<lambda>k. eq k y) (seen @ [x])"
      using Cons.prems by (auto simp: list_ex_iff)
    from Cons.IH [OF this] False e show ?thesis by simp
  qed
qed

lemma uniqueSliceElements_firstOccurrences:
  "transp eq \<Longrightarrow> uniqueSliceElements eq xs = firstOccurrences eq xs"
  using uniqueLoop_firstOccurrencesFrom [of eq "[]" "[]" xs "[]"]
  by (simp add: uniqueSliceElements_def firstOccurrences_def)

lemma firstOccurrencesFrom_fresh:
  "y \<in> set (firstOccurrencesFrom eq earlier xs) \<Longrightarrow> e \<in> set earlier \<Longrightarrow> \<not> eq e y"
proof (induction xs arbitrary: earlier)
  case Nil
  then show ?case by simp
next
  case (Cons x xs)
  show ?case
  proof (cases "y = x \<and> \<not> list_ex (\<lambda>e. eq e x) earlier")
    case True
    with Cons.prems(2) show ?thesis by (auto simp: list_ex_iff)
  next
    case False
    with Cons.prems(1) have "y \<in> set (firstOccurrencesFrom eq (earlier @ [x]) xs)"
      by (auto split: if_splits)
    from Cons.IH [OF this] Cons.prems(2) show ?thesis by simp
  qed
qed

lemma noDuplicates_firstOccurrencesFrom: "noDuplicates eq (firstOccurrencesFrom eq earlier xs)"
proof (induction xs arbitrary: earlier)
  case Nil
  then show ?case by simp
next
  case (Cons x xs)
  have "list_all (\<lambda>z. \<not> eq x z) (firstOccurrencesFrom eq (earlier @ [x]) xs)"
    unfolding list_all_iff
    using firstOccurrencesFrom_fresh [of _ eq "earlier @ [x]" xs x] by auto
  with Cons.IH [of "earlier @ [x]"] show ?case by simp
qed

lemma noDuplicates_firstOccurrences: "noDuplicates eq (firstOccurrences eq xs)"
  by (simp add: firstOccurrences_def noDuplicates_firstOccurrencesFrom)

lemma noDuplicates_eq_distinct: "noDuplicates (=) ys = distinct ys"
  by (induction ys) (auto simp: list_all_iff)

lemma distinct_firstOccurrences: "distinct (firstOccurrences (=) xs)"
  using noDuplicates_firstOccurrences [of "(=)" xs] by (simp add: noDuplicates_eq_distinct)

lemma firstOccurrencesFrom_remdups:
  "firstOccurrencesFrom (=) earlier xs = rev (remdups (rev (filter (\<lambda>x. x \<notin> set earlier) xs)))"
proof (induction xs arbitrary: earlier)
  case Nil
  then show ?case by simp
next
  case (Cons x xs)
  have f: "filter (\<lambda>y. y \<notin> set (earlier @ [x])) xs
      = filter (\<lambda>y. y \<noteq> x) (filter (\<lambda>y. y \<notin> set earlier) xs)"
    by (induction xs) auto
  have r: "rev (remdups (rev ys @ [x])) = x # rev (remdups (rev (filter (\<lambda>y. y \<noteq> x) ys)))" for ys
  proof -
    have "remdups (zs @ [x]) = remdups (filter (\<lambda>y. y \<noteq> x) zs) @ [x]" for zs
      by (induction zs) auto
    from this [of "rev ys"] show ?thesis by (simp add: rev_filter)
  qed
  show ?case
  proof (cases "x \<in> set earlier")
    case True
    then have "filter (\<lambda>y. y \<notin> set (earlier @ [x])) xs = filter (\<lambda>y. y \<notin> set earlier) xs"
      by (intro filter_cong) auto
    with True Cons.IH [of "earlier @ [x]"] show ?thesis
      by (simp add: list_ex_iff)
  next
    case False
    with Cons.IH [of "earlier @ [x]"] f r show ?thesis
      by (simp add: list_ex_iff)
  qed
qed


lemma firstOccurrences_remdups: "firstOccurrences (=) xs = rev (remdups (rev xs))"
  by (simp add: firstOccurrences_def firstOccurrencesFrom_remdups)


lemma arrayCase_IN:
  assumes "Operator c = ''IN''" "arrayCase lib fc c col p mv = Inr (conds, v)"
  shows "conds = [col @ '' IN UNNEST(@'' @ p @ '')''] \<and> arrayValue lib fc ''IN'' mv = Inr v"
  using assms by (auto simp: arrayCase_def Let_def split: sum.splits)

lemma arrayValue_Inr:
  assumes "arrayValue lib fc op mv = Inr v"
  shows "(ColumnType fc = FilterToSpannerFieldColumnTypeString
          \<and> (\<exists>xs. parseAnyToSlice asString asStrings mv = Inr xs
                \<and> v = AnyStrings (uniqueSliceElements (=) xs)))
       \<or> (ColumnType fc = FilterToSpannerFieldColumnTypeInt64
          \<and> (\<exists>xs. parseAnyToSlice asInt64 asInt64s mv = Inr xs
                \<and> v = AnyInt64s (uniqueSliceElements (=) xs)))
       \<or> (ColumnType fc = FilterToSpannerFieldColumnTypeFloat64
          \<and> (\<exists>xs. parseAnyToSlice asFloat64 asFloat64s mv = Inr xs
                \<and> v = AnyFloat64s (uniqueSliceElements (float64Eq lib) xs)))
       \<or> (ColumnType fc = FilterToSpannerFieldColumnTypeTimestamp
          \<and> (\<exists>xs. parseAnyToSlice asTime asTimes mv = Inr xs
                \<and> v = AnyTimes (uniqueSliceElements (=) xs)))"
proof (cases "ColumnType fc")
  case FilterToSpannerFieldColumnTypeString
  with assms show ?thesis
    by (cases "parseAnyToSlice asString asStrings mv") (auto simp: arrayValue_def)
next
  case FilterToSpannerFieldColumnTypeInt64
  with assms show ?thesis
    by (cases "parseAnyToSlice asInt64 asInt64s mv") (auto simp: arrayValue_def)
next
  case FilterToSpannerFieldColumnTypeFloat64
  with assms show ?thesis
    by (cases "parseAnyToSlice asFloat64 asFloat64s mv") (auto simp: arrayValue_def)
next
  case FilterToSpannerFieldColumnTypeTimestamp
  with assms show ?thesis
    by (cases "parseAnyToSlice asTime asTimes mv") (auto simp: arrayValue_def)
qed (use assms in \<open>simp_all add: arrayValue_def\<close>)

lemma transp_eq: "transp ((=) :: 'a \<Rightarrow> 'a \<Rightarrow> bool)"
  by (simp add: transp_def)

lemma termsLoop_shape: "map shape (fst (termsLoop q i nodes)) = map shape nodes"
  by (induction q i nodes rule: termsLoop.induct)
     (auto split: prod.splits option.splits sum.splits)

lemma termsLoop_unchanged:
  "\<forall>name v. fst (mapFieldValue q name v) = v \<Longrightarrow> fst (termsLoop q i nodes) = nodes"
proof (induction q i nodes rule: termsLoop.induct)
  case (2 q i v rest)
  from "2.prems" have "fst (mapFieldValue q i v) = v" by blast
  with 2 show ?case
    by (cases "mapFieldValue q i v") (auto split: prod.splits option.splits sum.splits)
qed auto

lemma convert_shape:
  "shape (fst (convertNodeToQuery q lib node pre)) = shape node"
  "map shape (fst (convertChildren q lib nodes pre)) = map shape nodes"
proof (induction q lib node pre and q lib nodes pre
    rule: convertNodeToQuery_convertChildren.induct)
  case (4 q lib ident val pre)
  obtain i err where m: "mapFieldName q (pre @ ident) = (i, err)"
    by (cases "mapFieldName q (pre @ ident)")
  show ?case
  proof (cases err)
    case (Some e)
    with m show ?thesis by simp
  next
    case None
    show ?thesis
    proof (cases val)
      case (NestedNode expr)
      from 4 [OF m [symmetric] None NestedNode]
      have "shape (fst (convertNodeToQuery q lib expr (i @ ''.''))) = shape expr" .
      with m None NestedNode show ?thesis
        by (cases "convertNodeToQuery q lib expr (i @ ''.'')") simp
    next
      case (OrNode nodes)
      with m None termsLoop_shape [of q i nodes] show ?thesis
        by (auto split: prod.splits sum.splits)
    qed (use m None in \<open>auto split: prod.splits option.splits\<close>)
  qed
next
  case (5 q lib ident op val pre)
  then show ?case
    by (cases val) (auto split: prod.splits option.splits sum.splits)
qed (auto split: prod.splits option.splits sum.splits)

lemma convert_unchanged:
  "\<forall>name v. fst (mapFieldValue q name v) = v \<Longrightarrow>
     fst (convertNodeToQuery q lib node pre) = node"
  "\<forall>name v. fst (mapFieldValue q name v) = v \<Longrightarrow>
     fst (convertChildren q lib nodes pre) = nodes"
proof (induction q lib node pre and q lib nodes pre
    rule: convertNodeToQuery_convertChildren.induct)
  case (4 q lib ident val pre)
  obtain i err where m: "mapFieldName q (pre @ ident) = (i, err)"
    by (cases "mapFieldName q (pre @ ident)")
  show ?case
  proof (cases err)
    case (Some e)
    with m show ?thesis by simp
  next
    case None
    show ?thesis
    proof (cases val)
      case (NestedNode expr)
      from "4.IH" [OF m [symmetric] None NestedNode "4.prems"]
      have "fst (convertNodeToQuery q lib expr (i @ ''.'')) = expr" .
      with m None NestedNode show ?thesis
        by (cases "convertNodeToQuery q lib expr (i @ ''.'')") simp
    next
      case (OrNode nodes)
      with m None termsLoop_unchanged [OF "4.prems", of i nodes] show ?thesis
        by (auto split: prod.splits sum.splits)
    next
      case (LiteralNode v)
      from "4.prems" have "fst (mapFieldValue q i v) = v" by blast
      with m None LiteralNode show ?thesis
        by (cases "mapFieldValue q i v") (auto split: option.splits)
    qed (use m None in \<open>auto split: prod.splits option.splits\<close>)
  qed
next
  case (5 q lib ident op val pre)
  obtain i err where m: "mapFieldName q (pre @ ident) = (i, err)"
    by (cases "mapFieldName q (pre @ ident)")
  show ?case
  proof (cases val)
    case (LiteralNode v)
    from "5.prems" have "fst (mapFieldValue q i v) = v" by blast
    with m LiteralNode show ?thesis
      by (cases "mapFieldValue q i v") (auto split: option.splits)
  qed (use m in \<open>auto split: prod.splits option.splits\<close>)
qed (auto split: prod.splits option.splits sum.splits)

lemma unwrapSlice_many:
  "length vs \<noteq> 1 \<Longrightarrow> unwrapSlice (AnyStrings vs) = AnyStrings vs"
  "length ms \<noteq> 1 \<Longrightarrow> unwrapSlice (AnySlice ms) = AnySlice ms"
proof -
  show "length vs \<noteq> 1 \<Longrightarrow> unwrapSlice (AnyStrings vs) = AnyStrings vs"
    by (cases vs; cases "tl vs") auto
  show "length ms \<noteq> 1 \<Longrightarrow> unwrapSlice (AnySlice ms) = AnySlice ms"
    by (cases ms; cases "tl ms") auto
qed

lemma convertEach_length: "convertEach conv vs = Inr xs \<Longrightarrow> length xs = length vs"
  by (induction vs arbitrary: xs) (auto split: sum.splits)

lemma mapValues_multiple_fails:
  assumes "1 < length vals"
    and "\<not> AllowMultipleValues fc" "\<not> AllowContains fc" "\<not> AllowContainedBy fc"
  shows "\<exists>e. mapValues lib fc p vals = Inl e"
    and "MapValue fc = None \<Longrightarrow> mapValues lib fc p vals = Inl MultipleValuesNotAllowed"
proof -
  from assms(1) have n: "length vals \<noteq> 1" by simp
  show "MapValue fc = None \<Longrightarrow> mapValues lib fc p vals = Inl MultipleValuesNotAllowed"
    using assms(2-4) n by (simp add: mapValues_def Let_def unwrapSlice_many)
  show "\<exists>e. mapValues lib fc p vals = Inl e"
  proof (cases "MapValue fc")
    case None
    with assms(2-4) n show ?thesis by (simp add: mapValues_def Let_def unwrapSlice_many)
  next
    case (Some hook)
    show ?thesis
    proof (cases "convertEach hook vals")
      case (Inl e)
      with Some show ?thesis by (simp add: mapValues_def)
    next
      case (Inr ms)
      with convertEach_length [OF Inr] n have "length ms \<noteq> 1" by simp
      with Some Inr assms(2-4) show ?thesis
        by (simp add: mapValues_def Let_def unwrapSlice_many)
    qed
  qed
qed

section \<open>Constrained-equality probe\<close>

text \<open>
  C1. The claim: the probe of an \<^verbatim>\<open>Or\<close> node is null as soon as one child is not an
  \<^verbatim>\<open>Is\<close> against the target, in particular when a child is a \<^verbatim>\<open>Range\<close> or a \<^verbatim>\<open>Not\<close>.
  The code skips every child that is not an \<^verbatim>\<open>IsNode\<close>: on
  \<^verbatim>\<open>type_id:team or age>5\<close> and the target \<^verbatim>\<open>type_id\<close> it answers \<^verbatim>\<open>["team"]\<close>, although
  the filter does not force \<^verbatim>\<open>type_id\<close> to be \<^verbatim>\<open>team\<close>. With the second child an
  \<^verbatim>\<open>Is\<close> on another field the answer is null, as the claim says.
\<close>

theorem HasMustEqual_or_skips_non_is:
  "HasMustEqual (Some (OrNode [IsNode ''type_id'' (LiteralNode ''team''),
                               RangeNode ''age'' RangeOperatorGt (LiteralNode ''5'')])) ''type_id''
     = [''team'']
   \<and> HasMustEqual (Some (OrNode [IsNode ''type_id'' (LiteralNode ''team''),
                                 NotNode (IsNode ''type_id'' (LiteralNode ''player''))])) ''type_id''
     = [''team'']
   \<and> HasMustEqual (Some (OrNode [IsNode ''type_id'' (LiteralNode ''team''),
                                 IsNode ''disabled'' (LiteralNode ''true'')])) ''type_id''
     = []"
  by (simp add: hasMustEqualOrNode_def)


section \<open>Field-count cap of the flat-filter projection\<close>

text \<open>
  C8. For an \<^verbatim>\<open>And\<close> node whose children are individually projectable, that is each
  child is an \<^verbatim>\<open>Is\<close>, \<^verbatim>\<open>Not\<close>, \<^verbatim>\<open>Range\<close> or \<^verbatim>\<open>Literal\<close> node that the loop of
  \<^verbatim>\<open>convertAndNode\<close> converts without error (to the filters \<open>fs\<close>), the conversion
  fails with the field-count error exactly when some field name occurs more than twice
  among the projected clauses, and otherwise returns all the clauses in input order.
\<close>

theorem convertAndNode_field_cap:
  assumes "map convertAndChild nodes = map Inr fs"
  shows "convertToFilter (Some (AndNode nodes)) =
     (if \<exists>fld. 2 < count_list (map Field (concat (map Clauses fs))) fld
      then Inl FieldCountExceeded
      else Inr \<lparr>Clauses = concat (map Clauses fs)\<rparr>)"
  using convertAndChildren_projected [OF assms, of "[]"]
    fieldCountLoop_exceeded [of "\<lambda>_. 0" "concat (map Clauses fs)"]
  by (simp add: convertAndNode_def)

theorem convertAndNode_field_cap_witness:
  "map convertAndChild
     [RangeNode ''amount'' RangeOperatorGte (LiteralNode ''1''),
      IsNode ''name'' (LiteralNode ''Beau''),
      RangeNode ''amount'' RangeOperatorLt (LiteralNode ''5'')]
   = map Inr
       [\<lparr>Clauses = [\<lparr>Field = ''amount'', Operator = ''>='', Values = [''1'']\<rparr>]\<rparr>,
        \<lparr>Clauses = [\<lparr>Field = ''name'', Operator = ''='', Values = [''Beau'']\<rparr>]\<rparr>,
        \<lparr>Clauses = [\<lparr>Field = ''amount'', Operator = ''<'', Values = [''5'']\<rparr>]\<rparr>]
   \<and> convertToFilter (Some (AndNode
          [RangeNode ''amount'' RangeOperatorGte (LiteralNode ''1''),
           IsNode ''name'' (LiteralNode ''Beau''),
           RangeNode ''amount'' RangeOperatorLt (LiteralNode ''5'')]))
     = Inr \<lparr>Clauses = [\<lparr>Field = ''amount'', Operator = ''>='', Values = [''1'']\<rparr>,
                         \<lparr>Field = ''name'', Operator = ''='', Values = [''Beau'']\<rparr>,
                         \<lparr>Field = ''amount'', Operator = ''<'', Values = [''5'']\<rparr>]\<rparr>"
proof -
  have h: "map convertAndChild
     [RangeNode ''amount'' RangeOperatorGte (LiteralNode ''1''),
      IsNode ''name'' (LiteralNode ''Beau''),
      RangeNode ''amount'' RangeOperatorLt (LiteralNode ''5'')]
   = map Inr
       [\<lparr>Clauses = [\<lparr>Field = ''amount'', Operator = ''>='', Values = [''1'']\<rparr>]\<rparr>,
        \<lparr>Clauses = [\<lparr>Field = ''name'', Operator = ''='', Values = [''Beau'']\<rparr>]\<rparr>,
        \<lparr>Clauses = [\<lparr>Field = ''amount'', Operator = ''<'', Values = [''5'']\<rparr>]\<rparr>]"
    by (simp add: convertRangeNode_def convertIsNode_def)
  have "\<not> (\<exists>fld. 2 < count_list [''amount'', ''name'', ''amount''] fld)"
    by auto
  with convertAndNode_field_cap [OF h] h show ?thesis
    by simp
qed

section \<open>Placeholders of ToSpannerSQL\<close>

text \<open>
  C3. For every flat filter (every clause carries one of the nine operators of the data
  model) and every field-config map for which \<^verbatim>\<open>ToSpannerSQL\<close> succeeds, the keys of the
  parameter map are exactly \<^verbatim>\<open>KQL0\<close>, ..., \<^verbatim>\<open>KQL(N-1)\<close>, pairwise different, where \<open>N\<close> is
  the number of predicates returned; \<open>N\<close> is the number of clauses that are not ignored,
  and the \<open>j\<close>-th of them, in clause order, is lowered with the index \<open>j\<close>: its predicate
  is the \<open>j\<close>-th predicate and its value is bound to \<^verbatim>\<open>KQLj\<close>. Ignored clauses consume no
  index and add no key.
\<close>

theorem ToSpannerSQL_placeholders:
  assumes ok: "ToSpannerSQL lib f fieldConfigs = Inr (condAnds, params)"
    and ops: "\<forall>c\<in>set (Clauses f).
           Operator c \<in> set [''='', ''!='', ''<'', ''<='', ''>'', ''>='', ''IN'', ''<@'', ''>@'']"
  shows "dom params = paramName ` {0..<length condAnds}
     \<and> card (dom params) = length condAnds
     \<and> length condAnds = length (filter (\<lambda>c. \<not> clauseIgnored fieldConfigs c) (Clauses f))
     \<and> (\<forall>j<length condAnds. \<exists>fc v.
           resolveFieldConfig fieldConfigs
             (filter (\<lambda>c. \<not> clauseIgnored fieldConfigs c) (Clauses f) ! j) = Inr fc
         \<and> clauseBody lib fc (Clauses f)
             (filter (\<lambda>c. \<not> clauseIgnored fieldConfigs c) (Clauses f) ! j) j
             = Inr ([condAnds ! j], v)
         \<and> params (paramName j) = Some v)"
proof -
  let ?ni = "filter (\<lambda>c. \<not> clauseIgnored fieldConfigs c) (Clauses f)"
  from ok obtain i' where
    "clauseLoop lib fieldConfigs (Clauses f) (Clauses f) ([], Map.empty, 0) = Inr (condAnds, params, i')"
    by (auto simp: ToSpannerSQL_def split: sum.splits option.splits)
  from clauseLoop_success [OF this] obtain rs where rs:
    "length rs = length ?ni" "condAnds = concat (map fst rs)"
    "\<And>j. j < length rs \<Longrightarrow> \<exists>fc. resolveFieldConfig fieldConfigs (?ni ! j) = Inr fc
         \<and> clauseBody lib fc (Clauses f) (?ni ! j) j = Inr (rs ! j)
         \<and> params (paramName j) = Some (snd (rs ! j))"
    "\<And>k. (\<forall>j<length rs. k \<noteq> paramName j) \<Longrightarrow> params k = None"
    by auto
  have one: "length (fst (rs ! j)) = 1" if "j < length rs" for j
  proof -
    from rs(3) [OF that] obtain fc where
      body: "clauseBody lib fc (Clauses f) (?ni ! j) j = Inr (fst (rs ! j), snd (rs ! j))"
      by auto
    from that rs(1) have "?ni ! j \<in> set ?ni" by (intro nth_mem) simp
    then have "?ni ! j \<in> set (Clauses f)" by simp
    from clauseBody_one [OF body bspec [OF ops this]] show ?thesis .
  qed
  have single: "fst r = [hd (fst r)]" if "r \<in> set rs" for r
  proof -
    from that obtain j where "j < length rs" "r = rs ! j"
      by (auto simp: in_set_conv_nth)
    with one [of j] show ?thesis
      by (cases "fst r") auto
  qed
  have conds: "condAnds = map (\<lambda>r. hd (fst r)) rs"
    unfolding rs(2) using single by (intro concat_singletons) simp
  then have len: "length condAnds = length rs" by simp
  have 1: "dom params = paramName ` {0..<length condAnds}"
  proof (intro set_eqI iffI)
    fix k assume "k \<in> dom params"
    then have "params k \<noteq> None" by auto
    with rs(4) [of k] obtain j where "j < length rs" "k = paramName j" by blast
    with len show "k \<in> paramName ` {0..<length condAnds}" by auto
  next
    fix k assume "k \<in> paramName ` {0..<length condAnds}"
    then obtain j where "j < length rs" "k = paramName j" using len by auto
    with rs(3) [of j] show "k \<in> dom params" by auto
  qed
  have "inj_on paramName {0..<length condAnds}"
    by (auto simp: inj_on_def paramName_inj)
  then have 2: "card (dom params) = length condAnds"
    using 1 by (simp add: card_image)
  have 3: "length condAnds = length ?ni" using len rs(1) by simp
  have 4: "\<exists>fc v. resolveFieldConfig fieldConfigs (?ni ! j) = Inr fc
         \<and> clauseBody lib fc (Clauses f) (?ni ! j) j = Inr ([condAnds ! j], v)
         \<and> params (paramName j) = Some v" if "j < length condAnds" for j
  proof -
    from that len have j: "j < length rs" by simp
    then have "rs ! j \<in> set rs" by simp
    from single [OF this] have "fst (rs ! j) = [hd (fst (rs ! j))]" .
    moreover from conds j have "condAnds ! j = hd (fst (rs ! j))" by simp
    ultimately have "rs ! j = ([condAnds ! j], snd (rs ! j))"
      by (cases "rs ! j") simp
    moreover from rs(3) [OF j] obtain fc where
      "resolveFieldConfig fieldConfigs (?ni ! j) = Inr fc"
      "clauseBody lib fc (Clauses f) (?ni ! j) j = Inr (rs ! j)"
      "params (paramName j) = Some (snd (rs ! j))"
      by blast
    ultimately show ?thesis by auto
  qed
  show ?thesis
    apply (intro conjI allI impI)
    apply (rule 1)
    apply (rule 2)
    apply (rule 3)
    apply (erule 4)
    done
qed


theorem ToSpannerSQL_placeholders_witness:
  "ToSpannerSQL rejectingLib
     \<lparr>Clauses = [\<lparr>Field = ''name'', Operator = ''='', Values = [''Beau'']\<rparr>,
                 \<lparr>Field = ''password'', Operator = ''='', Values = [''qwerty'']\<rparr>,
                 \<lparr>Field = ''email'', Operator = ''!='', Values = [''a@b.c'']\<rparr>]\<rparr>
     [(''name'', zeroFieldConfig\<lparr>ColumnType := FilterToSpannerFieldColumnTypeString\<rparr>),
      (''password'', zeroFieldConfig\<lparr>Ignore := True\<rparr>),
      (''email'', zeroFieldConfig\<lparr>ColumnType := FilterToSpannerFieldColumnTypeString,
                                  AllowNegation := True\<rparr>)]
   = Inr ([''name=@KQL0'', ''email!=@KQL1''],
          [''KQL0'' \<mapsto> AnyString ''Beau'', ''KQL1'' \<mapsto> AnyString ''a@b.c''])
   \<and> dom [''KQL0'' \<mapsto> AnyString ''Beau'', ''KQL1'' \<mapsto> (AnyString ''a@b.c'' :: (unit, unit Time) anyval)]
       = paramName ` {0..<length [''name=@KQL0'', ''email!=@KQL1'']}
   \<and> card (dom [''KQL0'' \<mapsto> AnyString ''Beau'',
                  ''KQL1'' \<mapsto> (AnyString ''a@b.c'' :: (unit, unit Time) anyval)])
       = length [''name=@KQL0'', ''email!=@KQL1'']"
proof -
  let ?f = "\<lparr>Clauses = [\<lparr>Field = ''name'', Operator = ''='', Values = [''Beau'']\<rparr>,
                 \<lparr>Field = ''password'', Operator = ''='', Values = [''qwerty'']\<rparr>,
                 \<lparr>Field = ''email'', Operator = ''!='', Values = [''a@b.c'']\<rparr>]\<rparr>"
  let ?cfg = "[(''name'', zeroFieldConfig\<lparr>ColumnType := FilterToSpannerFieldColumnTypeString\<rparr>),
      (''password'', zeroFieldConfig\<lparr>Ignore := True\<rparr>),
      (''email'', zeroFieldConfig\<lparr>ColumnType := FilterToSpannerFieldColumnTypeString,
                                  AllowNegation := True\<rparr>)] :: (unit, unit Time) fieldConfigs"
  let ?params = "[''KQL0'' \<mapsto> AnyString ''Beau'', ''KQL1'' \<mapsto> AnyString ''a@b.c'']
                   :: string \<rightharpoonup> (unit, unit Time) anyval"
  have run: "ToSpannerSQL rejectingLib ?f ?cfg = Inr ([''name=@KQL0'', ''email!=@KQL1''], ?params)"
    by (simp add: spanner_eval)
  have ops: "\<forall>c\<in>set (Clauses ?f).
       Operator c \<in> set [''='', ''!='', ''<'', ''<='', ''>'', ''>='', ''IN'', ''<@'', ''>@'']"
    by simp
  from ToSpannerSQL_placeholders [OF run ops]
  have "dom ?params = paramName ` {0..<length [''name=@KQL0'', ''email!=@KQL1'']}"
    and "card (dom ?params) = length [''name=@KQL0'', ''email!=@KQL1'']"
    by blast+
  with run show ?thesis
    by (intro conjI)
qed

text \<open>
  Outside the nine operators the switch of \<^verbatim>\<open>ToSpannerSQL\<close> has no case: the value is
  bound and no predicate is emitted.
\<close>

lemma ToSpannerSQL_unknown_operator:
  "ToSpannerSQL rejectingLib
     \<lparr>Clauses = [\<lparr>Field = ''name'', Operator = ''~'', Values = [''Beau'']\<rparr>]\<rparr>
     [(''name'', zeroFieldConfig\<lparr>ColumnType := FilterToSpannerFieldColumnTypeString\<rparr>)]
   = Inr ([], [''KQL0'' \<mapsto> AnyString ''Beau''])"
  by (simp add: spanner_eval)

section \<open>Range operators\<close>

text \<open>
  C5 as stated fails on the code in two ways, both by design: a range clause on a field
  whose config sets \<^verbatim>\<open>Ignore\<close> is skipped, so that \<^verbatim>\<open>ToSpannerSQL\<close> succeeds without
  \<^verbatim>\<open>AllowRanges\<close>; and with \<^verbatim>\<open>AllowRanges\<close> set on a column of another type the error is
  \<^verbatim>\<open>"operator > not supported for field type STRING"\<close>, which names the operator and the
  column type, not the field.
\<close>

theorem ToSpannerSQL_range_operator_counterexample:
  "ToSpannerSQL rejectingLib
     \<lparr>Clauses = [\<lparr>Field = ''name'', Operator = ''>'', Values = [''a'']\<rparr>]\<rparr>
     [(''name'', zeroFieldConfig\<lparr>ColumnType := FilterToSpannerFieldColumnTypeString,
                   AllowRanges := True\<rparr>)]
   = Inl (OperatorNotSupportedForFieldType ''>'' ''STRING'')
   \<and> ToSpannerSQL rejectingLib
     \<lparr>Clauses = [\<lparr>Field = ''password'', Operator = ''>'', Values = [''a'']\<rparr>]\<rparr>
     [(''password'', zeroFieldConfig\<lparr>Ignore := True\<rparr>)]
   = Inr ([], Map.empty)"
  by (simp add: spanner_eval)

text \<open>
  C5, amended. For a clause with the operator \<^verbatim>\<open><\<close>, \<^verbatim>\<open><=\<close>, \<^verbatim>\<open>>\<close> or \<^verbatim>\<open>>=\<close> whose field
  resolves to a config that is not ignored:
  \<^item> if the clause is in a filter for which \<^verbatim>\<open>ToSpannerSQL\<close> succeeds, the config has
    \<^verbatim>\<open>AllowRanges\<close> set and its column type is \<^verbatim>\<open>INT64\<close>, \<^verbatim>\<open>FLOAT64\<close> or \<^verbatim>\<open>TIMESTAMP\<close>, and
    the predicate \<^verbatim>\<open>col op @KQLi\<close> is among the predicates, with the mapped value bound
    to \<^verbatim>\<open>KQLi\<close>;
  \<^item> if the clause is the first one and passes the checks before the operator switch (the
    fields it requires are present, its value maps, it has at most one value), then with
    \<^verbatim>\<open>AllowRanges\<close> unset the result is the error naming the operator and the field, and
    with \<^verbatim>\<open>AllowRanges\<close> set and another column type it is the error naming the operator
    and the column type.
\<close>

theorem ToSpannerSQL_range_operator:
  assumes op: "Operator c \<in> set [''<'', ''<='', ''>'', ''>='']"
    and fc: "resolveFieldConfig cfgs c = Inr fc" "\<not> Ignore fc"
  shows "(\<forall>condAnds params.
            c \<in> set (Clauses f) \<and> ToSpannerSQL lib f cfgs = Inr (condAnds, params) \<longrightarrow>
            AllowRanges fc
            \<and> ColumnType fc \<in> {FilterToSpannerFieldColumnTypeInt64,
                  FilterToSpannerFieldColumnTypeFloat64, FilterToSpannerFieldColumnTypeTimestamp}
            \<and> (\<exists>i v. mapValues lib fc i (Values c) = Inr v
                  \<and> columnNameOf fc c @ Operator c @ ''@'' @ paramName i \<in> set condAnds
                  \<and> params (paramName i) = Some v))
     \<and> (requiresLoop fc (c # rest) (Field c) (Requires fc) = None
          \<and> (\<exists>v. mapValues lib fc 0 (Values c) = Inr v) \<and> length (Values c) \<le> 1 \<longrightarrow>
          (\<not> AllowRanges fc \<longrightarrow>
             ToSpannerSQL lib \<lparr>Clauses = c # rest\<rparr> cfgs
               = Inl (OperatorNotSupportedForField (Operator c) (Field c)))
          \<and> (AllowRanges fc
              \<and> ColumnType fc \<notin> {FilterToSpannerFieldColumnTypeInt64,
                    FilterToSpannerFieldColumnTypeFloat64, FilterToSpannerFieldColumnTypeTimestamp}
              \<longrightarrow>
             ToSpannerSQL lib \<lparr>Clauses = c # rest\<rparr> cfgs
               = Inl (OperatorNotSupportedForFieldType (Operator c)
                        (ColumnType_String (ColumnType fc)))))"
proof (intro conjI allI impI)
  fix condAnds params
  assume a: "c \<in> set (Clauses f) \<and> ToSpannerSQL lib f cfgs = Inr (condAnds, params)"
  with ToSpannerSQL_clause [of lib f cfgs condAnds params c fc] fc obtain i conds v where
    body: "clauseBody lib fc (Clauses f) c i = Inr (conds, v)"
    and sub: "set conds \<subseteq> set condAnds" and par: "params (paramName i) = Some v"
    by blast
  from clauseBody_Inr [OF body] obtain mv where
    pre: "requiresLoop fc (Clauses f) (Field c) (Requires fc) = None"
      "mapValues lib fc i (Values c) = Inr mv"
      "length (Values c) \<le> 1 \<or> Operator c \<in> set [''IN'', ''<@'', ''>@'']"
    by blast
  from clauseBody_switch [OF pre] range_not_other [OF op] body
  have "rangeCase fc c (columnNameOf fc c) (paramName i) mv = Inr (conds, v)"
    by simp
  then have r: "AllowRanges fc"
    "ColumnType fc \<in> {FilterToSpannerFieldColumnTypeInt64,
        FilterToSpannerFieldColumnTypeFloat64, FilterToSpannerFieldColumnTypeTimestamp}"
    "conds = [columnNameOf fc c @ Operator c @ ''@'' @ paramName i]" "v = mv"
    unfolding rangeCase_Inr by simp_all
  show "AllowRanges fc" by (rule r(1))
  show "ColumnType fc \<in> {FilterToSpannerFieldColumnTypeInt64,
        FilterToSpannerFieldColumnTypeFloat64, FilterToSpannerFieldColumnTypeTimestamp}"
    by (rule r(2))
  from r(3) sub have "columnNameOf fc c @ Operator c @ ''@'' @ paramName i \<in> set condAnds"
    by simp
  with pre(2) par r(4)
  show "\<exists>i v. mapValues lib fc i (Values c) = Inr v
          \<and> columnNameOf fc c @ Operator c @ ''@'' @ paramName i \<in> set condAnds
          \<and> params (paramName i) = Some v"
    by blast
next
  assume a: "requiresLoop fc (c # rest) (Field c) (Requires fc) = None
          \<and> (\<exists>v. mapValues lib fc 0 (Values c) = Inr v) \<and> length (Values c) \<le> 1"
    and nr: "\<not> AllowRanges fc"
  from a obtain mv where pre: "requiresLoop fc (c # rest) (Field c) (Requires fc) = None"
    "mapValues lib fc 0 (Values c) = Inr mv"
    "length (Values c) \<le> 1 \<or> Operator c \<in> set [''IN'', ''<@'', ''>@'']"
    by blast
  from clauseBody_switch [OF pre] range_not_other [OF op] nr
  have "clauseBody lib fc (c # rest) c 0
          = Inl (OperatorNotSupportedForField (Operator c) (Field c))"
    by (simp add: rangeCase_def)
  from ToSpannerSQL_first_error [OF fc this]
  show "ToSpannerSQL lib \<lparr>Clauses = c # rest\<rparr> cfgs
          = Inl (OperatorNotSupportedForField (Operator c) (Field c))" .
next
  assume a: "requiresLoop fc (c # rest) (Field c) (Requires fc) = None
          \<and> (\<exists>v. mapValues lib fc 0 (Values c) = Inr v) \<and> length (Values c) \<le> 1"
    and ty: "AllowRanges fc
              \<and> ColumnType fc \<notin> {FilterToSpannerFieldColumnTypeInt64,
                    FilterToSpannerFieldColumnTypeFloat64, FilterToSpannerFieldColumnTypeTimestamp}"
  from a obtain mv where pre: "requiresLoop fc (c # rest) (Field c) (Requires fc) = None"
    "mapValues lib fc 0 (Values c) = Inr mv"
    "length (Values c) \<le> 1 \<or> Operator c \<in> set [''IN'', ''<@'', ''>@'']"
    by blast
  from ty have "rangeCase fc c (columnNameOf fc c) (paramName 0) mv
      = Inl (OperatorNotSupportedForFieldType (Operator c) (ColumnType_String (ColumnType fc)))"
    by (cases "ColumnType fc") (simp_all add: rangeCase_def)
  with clauseBody_switch [OF pre] range_not_other [OF op]
  have "clauseBody lib fc (c # rest) c 0
          = Inl (OperatorNotSupportedForFieldType (Operator c) (ColumnType_String (ColumnType fc)))"
    by simp
  from ToSpannerSQL_first_error [OF fc this]
  show "ToSpannerSQL lib \<lparr>Clauses = c # rest\<rparr> cfgs
          = Inl (OperatorNotSupportedForFieldType (Operator c)
                   (ColumnType_String (ColumnType fc)))" .
qed

theorem ToSpannerSQL_range_operator_witness:
  "ToSpannerSQL (rejectingLib\<lparr>ParseInt := (\<lambda>s. if s = ''12345'' then Some 12345 else None)\<rparr>)
     \<lparr>Clauses = [\<lparr>Field = ''userId'', Operator = ''>='', Values = [''12345'']\<rparr>,
                 \<lparr>Field = ''birthdate'', Operator = ''>'', Values = [''1993-11-26T07:00:00Z'']\<rparr>]\<rparr>
     [(''userId'', zeroFieldConfig\<lparr>ColumnName := ''user_id'',
                     ColumnType := FilterToSpannerFieldColumnTypeInt64, AllowRanges := False\<rparr>),
      (''birthdate'', zeroFieldConfig\<lparr>ColumnType := FilterToSpannerFieldColumnTypeTimestamp,
                        AllowRanges := True\<rparr>)]
   = Inl (OperatorNotSupportedForField ''>='' ''userId'')
   \<and> ToSpannerSQL (rejectingLib\<lparr>ParseInt := (\<lambda>s. if s = ''12345'' then Some 12345 else None)\<rparr>)
     \<lparr>Clauses = [\<lparr>Field = ''userId'', Operator = ''>='', Values = [''12345'']\<rparr>]\<rparr>
     [(''userId'', zeroFieldConfig\<lparr>ColumnName := ''user_id'',
                     ColumnType := FilterToSpannerFieldColumnTypeInt64, AllowRanges := True\<rparr>)]
   = Inr ([''user_id>=@KQL0''], [''KQL0'' \<mapsto> AnyInt64 12345])"
proof -
  let ?lib = "rejectingLib\<lparr>ParseInt := (\<lambda>s. if s = ''12345'' then Some 12345 else None)\<rparr>"
  let ?c = "\<lparr>Field = ''userId'', Operator = ''>='', Values = [''12345'']\<rparr>"
  let ?rest = "[\<lparr>Field = ''birthdate'', Operator = ''>'', Values = [''1993-11-26T07:00:00Z'']\<rparr>]"
  let ?fc = "zeroFieldConfig\<lparr>ColumnName := ''user_id'',
      ColumnType := FilterToSpannerFieldColumnTypeInt64, AllowRanges := False\<rparr>
      :: (unit, unit Time) FilterToSpannerFieldConfig"
  let ?cfgs = "[(''userId'', ?fc),
      (''birthdate'', zeroFieldConfig\<lparr>ColumnType := FilterToSpannerFieldColumnTypeTimestamp,
                        AllowRanges := True\<rparr>)]"
  have op: "Operator ?c \<in> set [''<'', ''<='', ''>'', ''>='']" by simp
  have fc: "resolveFieldConfig ?cfgs ?c = Inr ?fc" by (simp add: resolveFieldConfig_def)
  have ni: "\<not> Ignore ?fc" by (simp add: zeroFieldConfig_def)
  have pre: "requiresLoop ?fc (?c # ?rest) (Field ?c) (Requires ?fc) = None
      \<and> (\<exists>v. mapValues ?lib ?fc 0 (Values ?c) = Inr v) \<and> length (Values ?c) \<le> 1"
    by (simp add: zeroFieldConfig_def mapValues_def convertValue_def convertInt64_def rejectingLib_def)
  have nr: "\<not> AllowRanges ?fc" by simp
  from ToSpannerSQL_range_operator [OF op fc ni, where lib = ?lib and rest = ?rest] pre nr
  have 1: "ToSpannerSQL ?lib \<lparr>Clauses = ?c # ?rest\<rparr> ?cfgs
      = Inl (OperatorNotSupportedForField (Operator ?c) (Field ?c))"
    by blast
  have 2: "ToSpannerSQL ?lib \<lparr>Clauses = [?c]\<rparr>
     [(''userId'', zeroFieldConfig\<lparr>ColumnName := ''user_id'',
                     ColumnType := FilterToSpannerFieldColumnTypeInt64, AllowRanges := True\<rparr>)]
   = Inr ([''user_id>=@KQL0''], [''KQL0'' \<mapsto> AnyInt64 12345])"
    by (simp add: spanner_eval convertInt64_def rejectingLib_def)
  from 1 2 show ?thesis by simp
qed

section \<open>The boolean-literal sentinel\<close>



section \<open>Prefix match\<close>

text \<open>
  C6 as stated fails on the code in three ways, all by design. When the config also sets
  \<^verbatim>\<open>AllowSuffixMatch\<close> and the value begins with \<^verbatim>\<open>*\<close>, both ends are rewritten, and
  \<^verbatim>\<open>*@example.*\<close> is bound as \<^verbatim>\<open>%@example.%\<close>, not as \<^verbatim>\<open>*@example.%\<close>. When the config
  sets \<^verbatim>\<open>Ignore\<close> the clause is skipped and nothing is emitted. When the config requires
  a field that no clause of the filter is on, the result is an error.
\<close>

theorem ToSpannerSQL_prefix_match_counterexample:
  "ToSpannerSQL rejectingLib
     \<lparr>Clauses = [\<lparr>Field = ''email'', Operator = ''='', Values = [''*@example.*'']\<rparr>]\<rparr>
     [(''email'', zeroFieldConfig\<lparr>ColumnType := FilterToSpannerFieldColumnTypeString,
                    AllowPrefixMatch := True, AllowSuffixMatch := True\<rparr>)]
   = Inr ([''email LIKE @KQL0''], [''KQL0'' \<mapsto> AnyString ''%@example.%''])
   \<and> escapeEach (butlast ''*@example.*'') @ ''%'' = ''*@example.%''
   \<and> ToSpannerSQL rejectingLib
     \<lparr>Clauses = [\<lparr>Field = ''email'', Operator = ''='', Values = [''john@example.*'']\<rparr>]\<rparr>
     [(''email'', zeroFieldConfig\<lparr>ColumnType := FilterToSpannerFieldColumnTypeString,
                    AllowPrefixMatch := True, Ignore := True\<rparr>)]
   = Inr ([], Map.empty)
   \<and> ToSpannerSQL rejectingLib
     \<lparr>Clauses = [\<lparr>Field = ''email'', Operator = ''='', Values = [''john@example.*'']\<rparr>]\<rparr>
     [(''email'', zeroFieldConfig\<lparr>ColumnType := FilterToSpannerFieldColumnTypeString,
                    AllowPrefixMatch := True, Requires := [''team'']\<rparr>)]
   = Inl (OnlyInCombination ''email'' ''team'')"
  by (simp add: spanner_eval escapeEach_def)

text \<open>
  C6, amended. For a clause \<^verbatim>\<open>(field, "=", [raw])\<close> whose field resolves to a config that
  is not ignored, sets \<^verbatim>\<open>AllowPrefixMatch\<close> and does not set \<^verbatim>\<open>AllowCaseInsensitiveMatch\<close>,
  and whose value maps to the string \<open>v\<close> (\<open>v\<close> is \<open>raw\<close> on a \<^verbatim>\<open>STRING\<close> column with no
  \<^verbatim>\<open>MapValue\<close> hook, lemma \<open>mapValues_string\<close>): if \<open>v\<close> ends with \<^verbatim>\<open>*\<close> but not with
  backslash and \<^verbatim>\<open>*\<close>, and the suffix rewrite does not apply (\<^verbatim>\<open>AllowSuffixMatch\<close> is unset
  or \<open>v\<close> does not begin with \<^verbatim>\<open>*\<close>), then
  \<^item> when the clause passes the check of the fields that its config requires (lines 313
    to 326: each of them is the field of a clause of the filter, or a clause is on an
    alias of the config), the loop body for the clause emits \<^verbatim>\<open>col LIKE @KQLi\<close> and binds
    \<open>v\<close> without its last character, every backslash, underscore and percent character
    escaped, followed by \<^verbatim>\<open>%\<close>;
  \<^item> every successful \<^verbatim>\<open>ToSpannerSQL\<close> on a filter with the clause has that predicate
    among its predicates and that value bound to the placeholder of the predicate.
\<close>

theorem ToSpannerSQL_prefix_match:
  assumes c: "Operator c = ''=''" "Values c = [raw]"
    and fc: "resolveFieldConfig cfgs c = Inr fc" "\<not> Ignore fc"
    and mv: "mapValues lib fc k [raw] = Inr (AnyString v)"
    and flags: "AllowPrefixMatch fc" "\<not> AllowCaseInsensitiveMatch fc"
    and star: "HasSuffix v ''*''" "\<not> HasSuffix v (backslash @ ''*'')"
    and nosuffix: "\<not> (AllowSuffixMatch fc \<and> HasPrefix v ''*'')"
  shows "(requiresLoop fc all (Field c) (Requires fc) = None \<longrightarrow>
            clauseBody lib fc all c i
              = Inr ([columnNameOf fc c @ '' LIKE @'' @ paramName i],
                     AnyString (escapeEach (butlast v) @ ''%'')))
     \<and> (\<forall>condAnds params.
            c \<in> set (Clauses f) \<and> ToSpannerSQL lib f cfgs = Inr (condAnds, params) \<longrightarrow>
            (\<exists>j. columnNameOf fc c @ '' LIKE @'' @ paramName j \<in> set condAnds
                 \<and> params (paramName j) = Some (AnyString (escapeEach (butlast v) @ ''%''))))"
proof -
  have eq: "equalityCase fc c col p (AnyString v)
      = Inr ([col @ '' LIKE @'' @ p], AnyString (escapeEach (butlast v) @ ''%''))" for col p
    using matchRewrite_prefix [OF flags(1) star nosuffix, of "''=''"] c(1) flags(2)
    by (simp add: equalityCase_def likeOperator_def)
  have body: "clauseBody lib fc all' c k'
      = Inr ([columnNameOf fc c @ '' LIKE @'' @ paramName k'],
             AnyString (escapeEach (butlast v) @ ''%''))"
    if "requiresLoop fc all' (Field c) (Requires fc) = None" for all' k'
  proof -
    from mapValues_string_index [OF mv] c(2)
    have m: "mapValues lib fc k' (Values c) = Inr (AnyString v)" by simp
    from c(2) have l: "length (Values c) \<le> 1 \<or> Operator c \<in> set [''IN'', ''<@'', ''>@'']"
      by simp
    from clauseBody_switch [OF that m l] equals_not_other [OF c(1)] eq
    show ?thesis by simp
  qed
  show ?thesis
  proof (intro conjI impI allI)
    assume "requiresLoop fc all (Field c) (Requires fc) = None"
    then show "clauseBody lib fc all c i
        = Inr ([columnNameOf fc c @ '' LIKE @'' @ paramName i],
               AnyString (escapeEach (butlast v) @ ''%''))"
      by (rule body)
  next
    fix condAnds params
    assume "c \<in> set (Clauses f) \<and> ToSpannerSQL lib f cfgs = Inr (condAnds, params)"
    with ToSpannerSQL_clause [of lib f cfgs condAnds params c fc] fc obtain j conds w where
      b: "clauseBody lib fc (Clauses f) c j = Inr (conds, w)"
      and sub: "set conds \<subseteq> set condAnds" and par: "params (paramName j) = Some w"
      by blast
    from clauseBody_Inr [OF b]
    have "requiresLoop fc (Clauses f) (Field c) (Requires fc) = None" by simp
    from body [OF this, of j] b sub par
    show "\<exists>j. columnNameOf fc c @ '' LIKE @'' @ paramName j \<in> set condAnds
            \<and> params (paramName j) = Some (AnyString (escapeEach (butlast v) @ ''%''))"
      by auto
  qed
qed

text \<open>The witness is the scenario of the specification, \<^verbatim>\<open>self_intro\<close>.\<close>

theorem ToSpannerSQL_prefix_match_witness:
  "ToSpannerSQL rejectingLib
     \<lparr>Clauses = [\<lparr>Field = ''self_intro'', Operator = ''='',
                   Values = [''Monday_%a'' @ backslash @ ''_'' @ backslash @ ''%''
                             @ backslash @ ''**'']\<rparr>]\<rparr>
     [(''self_intro'', zeroFieldConfig\<lparr>ColumnType := FilterToSpannerFieldColumnTypeString,
                         AllowPrefixMatch := True\<rparr>)]
   = Inr ([''self_intro LIKE @KQL0''],
          [''KQL0'' \<mapsto> AnyString (''Monday'' @ backslash @ ''_'' @ backslash @ ''%a''
             @ backslash @ backslash @ backslash @ ''_''
             @ backslash @ backslash @ backslash @ ''%''
             @ backslash @ backslash @ ''*%'')])
   \<and> clauseBody rejectingLib
        (zeroFieldConfig\<lparr>ColumnType := FilterToSpannerFieldColumnTypeString,
                         AllowPrefixMatch := True\<rparr>)
        [] \<lparr>Field = ''self_intro'', Operator = ''='',
             Values = [''Monday_%a'' @ backslash @ ''_'' @ backslash @ ''%''
                       @ backslash @ ''**'']\<rparr> 0
     = Inr ([''self_intro LIKE @KQL0''],
            AnyString (''Monday'' @ backslash @ ''_'' @ backslash @ ''%a''
             @ backslash @ backslash @ backslash @ ''_''
             @ backslash @ backslash @ backslash @ ''%''
             @ backslash @ backslash @ ''*%''))"
proof -
  let ?v = "''Monday_%a'' @ backslash @ ''_'' @ backslash @ ''%'' @ backslash @ ''**''"
  let ?c = "\<lparr>Field = ''self_intro'', Operator = ''='', Values = [?v]\<rparr>"
  let ?fc = "zeroFieldConfig\<lparr>ColumnType := FilterToSpannerFieldColumnTypeString,
      AllowPrefixMatch := True\<rparr> :: (unit, unit Time) FilterToSpannerFieldConfig"
  let ?cfgs = "[(''self_intro'', ?fc)]"
  have c: "Operator ?c = ''=''" "Values ?c = [?v]" by simp_all
  have fc: "resolveFieldConfig ?cfgs ?c = Inr ?fc" "\<not> Ignore ?fc"
    by (simp_all add: resolveFieldConfig_def zeroFieldConfig_def)
  have mv: "mapValues rejectingLib ?fc 0 [?v] = Inr (AnyString ?v)"
    by (rule mapValues_string) (simp_all add: zeroFieldConfig_def)
  have flags: "AllowPrefixMatch ?fc" "\<not> AllowCaseInsensitiveMatch ?fc"
    by (simp_all add: zeroFieldConfig_def)
  have star: "HasSuffix ?v ''*''" "\<not> HasSuffix ?v (backslash @ ''*'')"
    by (simp_all add: HasSuffix_def)
  have nosuffix: "\<not> (AllowSuffixMatch ?fc \<and> HasPrefix ?v ''*'')"
    by (simp add: zeroFieldConfig_def)
  have req: "requiresLoop ?fc [] (Field ?c) (Requires ?fc) = None"
    by (simp add: zeroFieldConfig_def)
  from ToSpannerSQL_prefix_match [OF c fc mv flags star nosuffix, where all = "[]" and i = 0] req
  have 1: "clauseBody rejectingLib ?fc [] ?c 0
      = Inr ([columnNameOf ?fc ?c @ '' LIKE @'' @ paramName 0],
             AnyString (escapeEach (butlast ?v) @ ''%''))"
    by blast
  have 2: "ToSpannerSQL rejectingLib \<lparr>Clauses = [?c]\<rparr> ?cfgs
     = Inr ([''self_intro LIKE @KQL0''],
          [''KQL0'' \<mapsto> AnyString (''Monday'' @ backslash @ ''_'' @ backslash @ ''%a''
             @ backslash @ backslash @ backslash @ ''_''
             @ backslash @ backslash @ backslash @ ''%''
             @ backslash @ backslash @ ''*%'')])"
    by (simp add: spanner_eval)
  from 1 2 show ?thesis
    by (simp add: columnNameOf_def zeroFieldConfig_def paramName_def formatNat.simps escapeEach_def)
qed

section \<open>A value that ends with an escaped star\<close>




section \<open>Deduplication of the IN array\<close>

text \<open>
  C9. The claim: the array bound to the placeholder of an \<^verbatim>\<open>IN\<close> clause on a \<^verbatim>\<open>STRING\<close>,
  \<^verbatim>\<open>INT64\<close>, \<^verbatim>\<open>FLOAT64\<close> or \<^verbatim>\<open>TIMESTAMP\<close> column has no duplicate elements. The code:
  \<^verbatim>\<open>uniqueSliceElements\<close> (``removes any duplicate elements in a slice'') keeps an element
  when the map \<^verbatim>\<open>seen\<close> has no key that is \<^verbatim>\<open>==\<close> to it, and two \<^verbatim>\<open>time.Time\<close> values are
  \<^verbatim>\<open>==\<close> only when their \<^verbatim>\<open>Location\<close> pointers are the same. \<^verbatim>\<open>mapValues\<close> parses every
  value of the clause with a call of \<^verbatim>\<open>time.Parse\<close> of its own; when the string \<open>s\<close> has
  an offset for which \<^verbatim>\<open>time.Parse\<close> allocates the \<^verbatim>\<open>Location\<close>, the two times parsed
  from the values \<open>[s, s]\<close> of an \<^verbatim>\<open>IN\<close> clause on a \<^verbatim>\<open>TIMESTAMP\<close> column have the same
  instant and different pointers: \<^verbatim>\<open>ToSpannerSQL\<close> succeeds, and the array of the
  placeholder holds the same timestamp twice.
\<close>

theorem ToSpannerSQL_in_keeps_equal_timestamps:
  assumes "ParseTime lib s = Some (t, None)"
  shows "ToSpannerSQL lib
     \<lparr>Clauses = [\<lparr>Field = ''date'', Operator = ''IN'', Values = [s, s]\<rparr>]\<rparr>
     [(''date'', zeroFieldConfig\<lparr>ColumnType := FilterToSpannerFieldColumnTypeTimestamp,
                   AllowMultipleValues := True\<rparr>)]
   = Inr ([''date IN UNNEST(@KQL0)''],
          [''KQL0'' \<mapsto> AnyTimes [Time t (Allocated 0 0), Time t (Allocated 0 1)]])"
  using assms by (simp add: spanner_eval convertTimestamp_def)

theorem ToSpannerSQL_in_keeps_equal_timestamps_witness:
  "ParseTime utcZoneLib ''2023-06-01T10:00:00+05:30'' = Some (1685593800, None)
   \<and> ToSpannerSQL utcZoneLib
     \<lparr>Clauses = [\<lparr>Field = ''date'', Operator = ''IN'',
                   Values = [''2023-06-01T10:00:00+05:30'', ''2023-06-01T10:00:00+05:30'']\<rparr>]\<rparr>
     [(''date'', zeroFieldConfig\<lparr>ColumnType := FilterToSpannerFieldColumnTypeTimestamp,
                   AllowMultipleValues := True\<rparr>)]
   = Inr ([''date IN UNNEST(@KQL0)''],
          [''KQL0'' \<mapsto> AnyTimes [Time 1685593800 (Allocated 0 0),
                                    Time 1685593800 (Allocated 0 1)]])"
proof -
  have p: "ParseTime utcZoneLib ''2023-06-01T10:00:00+05:30'' = Some (1685593800, None)"
    by (simp add: utcZoneLib_def)
  from ToSpannerSQL_in_keeps_equal_timestamps [OF p] p show ?thesis
    by (intro conjI)
qed

text \<open>
  The witness is the timestamp \<^verbatim>\<open>2023-06-01T10:00:00+05:30\<close> given twice, on a machine in
  the zone UTC. The same clause with a string for which \<^verbatim>\<open>time.Parse\<close> returns a shared
  pointer (\<^verbatim>\<open>2023-06-01T04:30:00Z\<close>) is bound once: the two times are \<^verbatim>\<open>==\<close>.
\<close>

lemma ToSpannerSQL_in_shared_location:
  assumes "ParseTime lib s = Some (t, Some k)"
  shows "ToSpannerSQL lib
     \<lparr>Clauses = [\<lparr>Field = ''date'', Operator = ''IN'', Values = [s, s]\<rparr>]\<rparr>
     [(''date'', zeroFieldConfig\<lparr>ColumnType := FilterToSpannerFieldColumnTypeTimestamp,
                   AllowMultipleValues := True\<rparr>)]
   = Inr ([''date IN UNNEST(@KQL0)''], [''KQL0'' \<mapsto> AnyTimes [Time t (Shared k)]])"
  using assms by (simp add: spanner_eval convertTimestamp_def)

lemma ToSpannerSQL_in_shared_location_example:
  "ToSpannerSQL utcZoneLib
     \<lparr>Clauses = [\<lparr>Field = ''date'', Operator = ''IN'',
                   Values = [''2023-06-01T04:30:00Z'', ''2023-06-01T04:30:00Z'']\<rparr>]\<rparr>
     [(''date'', zeroFieldConfig\<lparr>ColumnType := FilterToSpannerFieldColumnTypeTimestamp,
                   AllowMultipleValues := True\<rparr>)]
   = Inr ([''date IN UNNEST(@KQL0)''], [''KQL0'' \<mapsto> AnyTimes [Time 1685593800 (Shared 0)]])"
  by (rule ToSpannerSQL_in_shared_location) (simp add: utcZoneLib_def)

text \<open>
  On a \<^verbatim>\<open>FLOAT64\<close> column a value that \<^verbatim>\<open>strconv.ParseFloat\<close> parses to a NaN (which is
  not \<^verbatim>\<open>==\<close> to itself) is bound as often as the clause has it.
\<close>

lemma ToSpannerSQL_in_keeps_nan:
  assumes "ParseFloat lib s = Some x" "\<not> float64Eq lib x x"
  shows "ToSpannerSQL lib
     \<lparr>Clauses = [\<lparr>Field = ''score'', Operator = ''IN'', Values = [s, s]\<rparr>]\<rparr>
     [(''score'', zeroFieldConfig\<lparr>ColumnType := FilterToSpannerFieldColumnTypeFloat64,
                    AllowMultipleValues := True\<rparr>)]
   = Inr ([''score IN UNNEST(@KQL0)''], [''KQL0'' \<mapsto> AnyFloat64s [x, x]])"
  using assms by (simp add: spanner_eval convertFloat64_def)

text \<open>
  What holds: for an \<^verbatim>\<open>IN\<close> clause of a filter for which \<^verbatim>\<open>ToSpannerSQL\<close> succeeds, on a
  field that resolves to a config that is not ignored, the column type is \<^verbatim>\<open>STRING\<close>,
  \<^verbatim>\<open>INT64\<close>, \<^verbatim>\<open>FLOAT64\<close> or \<^verbatim>\<open>TIMESTAMP\<close>, the predicate \<^verbatim>\<open>col IN UNNEST(@KQLj)\<close> is emitted,
  and the array bound to \<^verbatim>\<open>KQLj\<close> is the list \<open>xs\<close> that \<^verbatim>\<open>parseAnyToSlice\<close> reads from the
  mapped and coerced value, in first-occurrence order under Go's \<^verbatim>\<open>==\<close>, under which it
  has no duplicates. For strings and \<^verbatim>\<open>int64\<close> that is the equality of the values, and
  \<open>firstOccurrences (=) xs\<close> is \<open>rev (remdups (rev xs))\<close> (lemma
  \<open>firstOccurrences_remdups\<close>); for \<^verbatim>\<open>time.Time\<close> it compares the pointers as well, and
  for \<^verbatim>\<open>float64\<close> it is a parameter of the model, of which transitivity is used.
\<close>

lemma ToSpannerSQL_in_first_occurrences:
  assumes ok: "ToSpannerSQL lib f cfgs = Inr (condAnds, params)"
    and c: "c \<in> set (Clauses f)" "Operator c = ''IN''"
    and fc: "resolveFieldConfig cfgs c = Inr fc" "\<not> Ignore fc"
    and tr: "transp (float64Eq lib)"
  shows "\<exists>j mv. mapValues lib fc j (Values c) = Inr mv
     \<and> columnNameOf fc c @ '' IN UNNEST(@'' @ paramName j @ '')'' \<in> set condAnds
     \<and> ((ColumnType fc = FilterToSpannerFieldColumnTypeString
          \<and> (\<exists>xs. parseAnyToSlice asString asStrings mv = Inr xs
                \<and> params (paramName j) = Some (AnyStrings (firstOccurrences (=) xs))
                \<and> distinct (firstOccurrences (=) xs)))
       \<or> (ColumnType fc = FilterToSpannerFieldColumnTypeInt64
          \<and> (\<exists>xs. parseAnyToSlice asInt64 asInt64s mv = Inr xs
                \<and> params (paramName j) = Some (AnyInt64s (firstOccurrences (=) xs))
                \<and> distinct (firstOccurrences (=) xs)))
       \<or> (ColumnType fc = FilterToSpannerFieldColumnTypeFloat64
          \<and> (\<exists>xs. parseAnyToSlice asFloat64 asFloat64s mv = Inr xs
                \<and> params (paramName j)
                     = Some (AnyFloat64s (firstOccurrences (float64Eq lib) xs))
                \<and> noDuplicates (float64Eq lib) (firstOccurrences (float64Eq lib) xs)))
       \<or> (ColumnType fc = FilterToSpannerFieldColumnTypeTimestamp
          \<and> (\<exists>xs. parseAnyToSlice asTime asTimes mv = Inr xs
                \<and> params (paramName j) = Some (AnyTimes (firstOccurrences (=) xs))
                \<and> distinct (firstOccurrences (=) xs))))"
proof -
  from ToSpannerSQL_clause [OF ok c(1) fc] obtain j conds v where
    body: "clauseBody lib fc (Clauses f) c j = Inr (conds, v)"
    and sub: "set conds \<subseteq> set condAnds" and par: "params (paramName j) = Some v"
    by blast
  from clauseBody_Inr [OF body] obtain mv where
    pre: "requiresLoop fc (Clauses f) (Field c) (Requires fc) = None"
      "mapValues lib fc j (Values c) = Inr mv"
      "length (Values c) \<le> 1 \<or> Operator c \<in> set [''IN'', ''<@'', ''>@'']"
    by blast
  from clauseBody_switch [OF pre] c(2) body
  have "arrayCase lib fc c (columnNameOf fc c) (paramName j) mv = Inr (conds, v)"
    by simp
  from arrayCase_IN [OF c(2) this]
  have conds: "conds = [columnNameOf fc c @ '' IN UNNEST(@'' @ paramName j @ '')'']"
    and av: "arrayValue lib fc ''IN'' mv = Inr v"
    by simp_all
  from conds sub
  have pred: "columnNameOf fc c @ '' IN UNNEST(@'' @ paramName j @ '')'' \<in> set condAnds"
    by simp
  from arrayValue_Inr [OF av] par
  have "(ColumnType fc = FilterToSpannerFieldColumnTypeString
          \<and> (\<exists>xs. parseAnyToSlice asString asStrings mv = Inr xs
                \<and> params (paramName j) = Some (AnyStrings (firstOccurrences (=) xs))
                \<and> distinct (firstOccurrences (=) xs)))
       \<or> (ColumnType fc = FilterToSpannerFieldColumnTypeInt64
          \<and> (\<exists>xs. parseAnyToSlice asInt64 asInt64s mv = Inr xs
                \<and> params (paramName j) = Some (AnyInt64s (firstOccurrences (=) xs))
                \<and> distinct (firstOccurrences (=) xs)))
       \<or> (ColumnType fc = FilterToSpannerFieldColumnTypeFloat64
          \<and> (\<exists>xs. parseAnyToSlice asFloat64 asFloat64s mv = Inr xs
                \<and> params (paramName j)
                     = Some (AnyFloat64s (firstOccurrences (float64Eq lib) xs))
                \<and> noDuplicates (float64Eq lib) (firstOccurrences (float64Eq lib) xs)))
       \<or> (ColumnType fc = FilterToSpannerFieldColumnTypeTimestamp
          \<and> (\<exists>xs. parseAnyToSlice asTime asTimes mv = Inr xs
                \<and> params (paramName j) = Some (AnyTimes (firstOccurrences (=) xs))
                \<and> distinct (firstOccurrences (=) xs)))"
    by (elim disjE conjE exE)
       (simp_all add: uniqueSliceElements_firstOccurrences [OF transp_eq]
          uniqueSliceElements_firstOccurrences [OF tr]
          distinct_firstOccurrences noDuplicates_firstOccurrences)
  with pre(2) pred show ?thesis by blast
qed

text \<open>
  On a \<^verbatim>\<open>STRING\<close> column with no \<^verbatim>\<open>MapValue\<close> hook the array is the list of the first
  occurrences of the values of the clause, and no string is in it twice.
\<close>

lemma ToSpannerSQL_in_string_column:
  assumes ok: "ToSpannerSQL lib f cfgs = Inr (condAnds, params)"
    and c: "c \<in> set (Clauses f)" "Operator c = ''IN''"
    and fc: "resolveFieldConfig cfgs c = Inr fc" "\<not> Ignore fc"
    and ty: "ColumnType fc = FilterToSpannerFieldColumnTypeString" "MapValue fc = None"
  shows "\<exists>j. columnNameOf fc c @ '' IN UNNEST(@'' @ paramName j @ '')'' \<in> set condAnds
     \<and> params (paramName j) = Some (AnyStrings (firstOccurrences (=) (Values c)))
     \<and> distinct (firstOccurrences (=) (Values c))"
proof -
  from ToSpannerSQL_clause [OF ok c(1) fc] obtain j conds v where
    body: "clauseBody lib fc (Clauses f) c j = Inr (conds, v)"
    and sub: "set conds \<subseteq> set condAnds" and par: "params (paramName j) = Some v"
    by blast
  from clauseBody_Inr [OF body] obtain mv where
    pre: "requiresLoop fc (Clauses f) (Field c) (Requires fc) = None"
      "mapValues lib fc j (Values c) = Inr mv"
      "length (Values c) \<le> 1 \<or> Operator c \<in> set [''IN'', ''<@'', ''>@'']"
    by blast
  from clauseBody_switch [OF pre] c(2) body
  have "arrayCase lib fc c (columnNameOf fc c) (paramName j) mv = Inr (conds, v)"
    by simp
  from arrayCase_IN [OF c(2) this]
  have conds: "conds = [columnNameOf fc c @ '' IN UNNEST(@'' @ paramName j @ '')'']"
    and av: "arrayValue lib fc ''IN'' mv = Inr v"
    by simp_all
  from av ty(1) mapValues_string_column [OF ty pre(2)]
  have "v = AnyStrings (firstOccurrences (=) (Values c))"
    by (simp add: arrayValue_def uniqueSliceElements_firstOccurrences [OF transp_eq])
  with conds sub par show ?thesis
    by (auto simp: distinct_firstOccurrences)
qed

section \<open>The AST after the boolean-query lowering\<close>

text \<open>
  C2 as stated fails on the code: \<^verbatim>\<open>convertNodeToQuery\<close> stores what the field-value hook
  returns in the literal node itself, so with a hook that prefixes \<^verbatim>\<open>uid_\<close> the AST
  \<^verbatim>\<open>user_id:5\<close> is \<^verbatim>\<open>user_id:uid_5\<close> after the call.
\<close>

theorem ConvertAST_frame_counterexample:
  "fst (ConvertAST
          (NewQueryGenerator\<lparr>mapFieldValue := (\<lambda>name v. (''uid_'' @ v, None))\<rparr>)
          rejectingLib
          (Some (IsNode ''user_id'' (LiteralNode ''5''))))
     = Some (IsNode ''user_id'' (LiteralNode ''uid_5''))
   \<and> snd (ConvertAST
          (NewQueryGenerator\<lparr>mapFieldValue := (\<lambda>name v. (''uid_'' @ v, None))\<rparr>)
          rejectingLib
          (Some (IsNode ''user_id'' (LiteralNode ''5''))))
     = Inr (Term ''user_id'' ''uid_5'')"
  by (simp add: NewQueryGenerator_def defaultFieldNameMapper_def)

text \<open>
  C2, amended. For every AST and every pair of hooks, \<^verbatim>\<open>ConvertAST\<close> leaves the shape of
  the AST unchanged: every node and identifier is the same before and after the call, and
  only literal values can differ. With a field-value hook that returns the value it is
  given, as the default hook does, the AST after the call is the AST before, whatever the
  field-name hook and whether the lowering succeeds or not.
\<close>

theorem ConvertAST_frame:
  "map_option shape (fst (ConvertAST q lib root)) = map_option shape root
   \<and> ((\<forall>name v. fst (mapFieldValue q name v) = v) \<longrightarrow> fst (ConvertAST q lib root) = root)"
proof (cases root)
  case None
  then show ?thesis by simp
next
  case (Some node)
  then show ?thesis
    using convert_shape(1) [of q lib node "[]"] convert_unchanged(1) [of q lib node "[]"]
    by (cases "convertNodeToQuery q lib node []") auto
qed

theorem ConvertAST_frame_witness:
  "fst (ConvertAST NewQueryGenerator rejectingLib
      (Some (AndNode [IsNode ''type_id'' (OrNode [LiteralNode ''team'', LiteralNode ''player'']),
                      NotNode (IsNode ''fields'' (NestedNode (IsNode ''active'' (LiteralNode ''true'')))),
                      RangeNode ''age'' RangeOperatorGte (LiteralNode ''5'')])))
   = Some (AndNode [IsNode ''type_id'' (OrNode [LiteralNode ''team'', LiteralNode ''player'']),
                    NotNode (IsNode ''fields'' (NestedNode (IsNode ''active'' (LiteralNode ''true'')))),
                    RangeNode ''age'' RangeOperatorGte (LiteralNode ''5'')])
   \<and> snd (ConvertAST NewQueryGenerator rejectingLib
      (Some (AndNode [IsNode ''type_id'' (OrNode [LiteralNode ''team'', LiteralNode ''player'']),
                      NotNode (IsNode ''fields'' (NestedNode (IsNode ''active'' (LiteralNode ''true''))))])))
   = Inr (BoolMust [Terms ''type_id'' [''team'', ''player''],
                    BoolMustNot [Term ''fields.active'' ''true'']])"
proof -
  have h: "\<forall>name v. fst (mapFieldValue NewQueryGenerator name v) = v"
    by (simp add: NewQueryGenerator_def defaultFieldValueMapper_def)
  from ConvertAST_frame [of NewQueryGenerator rejectingLib] h
  have 1: "fst (ConvertAST NewQueryGenerator rejectingLib root) = root" for root
    by blast
  have 2: "snd (ConvertAST NewQueryGenerator rejectingLib
      (Some (AndNode [IsNode ''type_id'' (OrNode [LiteralNode ''team'', LiteralNode ''player'']),
                      NotNode (IsNode ''fields'' (NestedNode (IsNode ''active'' (LiteralNode ''true''))))])))
   = Inr (BoolMust [Terms ''type_id'' [''team'', ''player''],
                    BoolMustNot [Term ''fields.active'' ''true'']])"
    by (simp add: NewQueryGenerator_def defaultFieldValueMapper_def defaultFieldNameMapper_def)
  show ?thesis by (intro conjI) (rule 1, rule 2)
qed

section \<open>The IN operator and AllowMultipleValues\<close>

text \<open>
  C4 as stated fails on the code in two ways, both by design. The flags gate the number
  of values, not the operator: \<^verbatim>\<open>mapValues\<close> turns a slice of one value into a scalar
  before it checks for a slice, so an \<^verbatim>\<open>IN\<close> clause of one value on a field with no flag
  at all is lowered to \<^verbatim>\<open>IN UNNEST\<close>. And an \<^verbatim>\<open>IN\<close> clause on a field whose config sets
  \<^verbatim>\<open>Ignore\<close> is skipped, so that \<^verbatim>\<open>ToSpannerSQL\<close> succeeds on several values without any
  flag.
\<close>

theorem ToSpannerSQL_in_operator_counterexample:
  "ToSpannerSQL rejectingLib
     \<lparr>Clauses = [\<lparr>Field = ''state'', Operator = ''IN'', Values = [''active'']\<rparr>]\<rparr>
     [(''state'', zeroFieldConfig\<lparr>ColumnType := FilterToSpannerFieldColumnTypeString\<rparr>)]
   = Inr ([''state IN UNNEST(@KQL0)''], [''KQL0'' \<mapsto> AnyStrings [''active'']])
   \<and> ToSpannerSQL rejectingLib
     \<lparr>Clauses = [\<lparr>Field = ''state'', Operator = ''IN'', Values = [''active'', ''canceled'']\<rparr>]\<rparr>
     [(''state'', zeroFieldConfig\<lparr>ColumnType := FilterToSpannerFieldColumnTypeString,
                    Ignore := True\<rparr>)]
   = Inr ([], Map.empty)"
  by (simp add: spanner_eval)

text \<open>
  C4, amended. For a clause with the operator \<^verbatim>\<open>IN\<close> whose field resolves to a config
  that is not ignored:
  \<^item> with more than one value and none of \<^verbatim>\<open>AllowMultipleValues\<close>, \<^verbatim>\<open>AllowContains\<close>,
    \<^verbatim>\<open>AllowContainedBy\<close> set, \<^verbatim>\<open>ToSpannerSQL\<close> fails on every filter with the clause; when
    the clause comes first, has no \<^verbatim>\<open>MapValue\<close> hook and passes the check of the fields
    that its config requires (lines 313 to 326: each of them is the field of a clause of
    the filter, or a clause is on an alias of the config), the error is
    \<^verbatim>\<open>"field f: multiple values are not allowed"\<close>;
  \<^item> with one value, which maps and converts to an array of the column type, when the
    clause passes the check of the fields that its config requires, the loop body emits
    \<^verbatim>\<open>col IN UNNEST(@KQLi)\<close> and binds the array, whatever the flags.
\<close>

theorem ToSpannerSQL_in_operator:
  assumes op: "Operator c = ''IN''"
    and fc: "resolveFieldConfig cfgs c = Inr fc" "\<not> Ignore fc"
  shows "(1 < length (Values c)
          \<and> \<not> AllowMultipleValues fc \<and> \<not> AllowContains fc \<and> \<not> AllowContainedBy fc \<longrightarrow>
            (c \<in> set (Clauses f) \<longrightarrow> (\<exists>e. ToSpannerSQL lib f cfgs = Inl e))
          \<and> (MapValue fc = None \<and> requiresLoop fc (c # rest) (Field c) (Requires fc) = None \<longrightarrow>
               ToSpannerSQL lib \<lparr>Clauses = c # rest\<rparr> cfgs
                 = Inl (FieldError (Field c) MultipleValuesNotAllowed)))
     \<and> (Values c = [raw] \<and> mapValues lib fc i [raw] = Inr mv
          \<and> arrayValue lib fc ''IN'' mv = Inr arr
          \<and> requiresLoop fc all (Field c) (Requires fc) = None \<longrightarrow>
            clauseBody lib fc all c i
              = Inr ([columnNameOf fc c @ '' IN UNNEST(@'' @ paramName i @ '')''], arr))"
proof (intro conjI impI)
  assume a: "1 < length (Values c)
          \<and> \<not> AllowMultipleValues fc \<and> \<not> AllowContains fc \<and> \<not> AllowContainedBy fc"
    and c: "c \<in> set (Clauses f)"
  have e: "\<exists>e. mapValues lib fc j (Values c) = Inl e" for j
    using a mapValues_multiple_fails(1) [of "Values c" fc lib j] by blast
  show "\<exists>e. ToSpannerSQL lib f cfgs = Inl e"
  proof (cases "ToSpannerSQL lib f cfgs")
    case (Inl e')
    then show ?thesis by blast
  next
    case (Inr r)
    obtain condAnds params where "r = (condAnds, params)" by (cases r)
    with Inr ToSpannerSQL_clause [of lib f cfgs condAnds params c fc] c fc
    obtain j conds v where "clauseBody lib fc (Clauses f) c j = Inr (conds, v)" by blast
    from clauseBody_Inr [OF this] e [of j] show ?thesis by auto
  qed
next
  assume a: "1 < length (Values c)
          \<and> \<not> AllowMultipleValues fc \<and> \<not> AllowContains fc \<and> \<not> AllowContainedBy fc"
    and b: "MapValue fc = None \<and> requiresLoop fc (c # rest) (Field c) (Requires fc) = None"
  from a b mapValues_multiple_fails(2) [of "Values c" fc lib 0]
  have "mapValues lib fc 0 (Values c) = Inl MultipleValuesNotAllowed" by blast
  with b have "clauseBody lib fc (c # rest) c 0 = Inl (FieldError (Field c) MultipleValuesNotAllowed)"
    by (simp add: clauseBody_def)
  from ToSpannerSQL_first_error [OF fc this]
  show "ToSpannerSQL lib \<lparr>Clauses = c # rest\<rparr> cfgs
          = Inl (FieldError (Field c) MultipleValuesNotAllowed)" .
next
  assume a: "Values c = [raw] \<and> mapValues lib fc i [raw] = Inr mv
          \<and> arrayValue lib fc ''IN'' mv = Inr arr
          \<and> requiresLoop fc all (Field c) (Requires fc) = None"
  then have pre: "requiresLoop fc all (Field c) (Requires fc) = None"
    "mapValues lib fc i (Values c) = Inr mv"
    "length (Values c) \<le> 1 \<or> Operator c \<in> set [''IN'', ''<@'', ''>@'']"
    by simp_all
  from clauseBody_switch [OF pre] op a
  show "clauseBody lib fc all c i
          = Inr ([columnNameOf fc c @ '' IN UNNEST(@'' @ paramName i @ '')''], arr)"
    by (simp add: arrayCase_def)
qed

theorem ToSpannerSQL_in_operator_witness:
  "ToSpannerSQL rejectingLib
     \<lparr>Clauses = [\<lparr>Field = ''state'', Operator = ''IN'', Values = [''active'', ''canceled'']\<rparr>]\<rparr>
     [(''state'', zeroFieldConfig\<lparr>ColumnType := FilterToSpannerFieldColumnTypeString\<rparr>)]
   = Inl (FieldError ''state'' MultipleValuesNotAllowed)
   \<and> clauseBody rejectingLib
        (zeroFieldConfig\<lparr>ColumnType := FilterToSpannerFieldColumnTypeString\<rparr>) []
        \<lparr>Field = ''state'', Operator = ''IN'', Values = [''active'']\<rparr> 0
     = Inr ([''state IN UNNEST(@KQL0)''], AnyStrings [''active''])"
proof -
  let ?fc = "zeroFieldConfig\<lparr>ColumnType := FilterToSpannerFieldColumnTypeString\<rparr>
      :: (unit, unit Time) FilterToSpannerFieldConfig"
  let ?cfgs = "[(''state'', ?fc)]"
  let ?c = "\<lparr>Field = ''state'', Operator = ''IN'', Values = [''active'', ''canceled'']\<rparr>"
  let ?d = "\<lparr>Field = ''state'', Operator = ''IN'', Values = [''active'']\<rparr>"
  have fc: "resolveFieldConfig ?cfgs ?c = Inr ?fc" "\<not> Ignore ?fc"
    by (simp_all add: resolveFieldConfig_def zeroFieldConfig_def)
  have fd: "resolveFieldConfig ?cfgs ?d = Inr ?fc"
    by (simp add: resolveFieldConfig_def)
  have a: "1 < length (Values ?c)
      \<and> \<not> AllowMultipleValues ?fc \<and> \<not> AllowContains ?fc \<and> \<not> AllowContainedBy ?fc"
    by (simp add: zeroFieldConfig_def)
  have b: "MapValue ?fc = None \<and> requiresLoop ?fc (?c # []) (Field ?c) (Requires ?fc) = None"
    by (simp add: zeroFieldConfig_def)
  have "Operator ?c = ''IN''" by simp
  from ToSpannerSQL_in_operator [OF this fc, where lib = rejectingLib and rest = "[]"] a b
  have 1: "ToSpannerSQL rejectingLib \<lparr>Clauses = [?c]\<rparr> ?cfgs
      = Inl (FieldError (Field ?c) MultipleValuesNotAllowed)"
    by blast
  have d: "Values ?d = [''active''] \<and> mapValues rejectingLib ?fc 0 [''active''] = Inr (AnyString ''active'')
      \<and> arrayValue rejectingLib ?fc ''IN'' (AnyString ''active'') = Inr (AnyStrings [''active''])
      \<and> requiresLoop ?fc [] (Field ?d) (Requires ?fc) = None"
    by (simp add: zeroFieldConfig_def mapValues_def convertValue_def arrayValue_def
        parseAnyToSlice_def uniqueSliceElements_def)
  have "Operator ?d = ''IN''" by simp
  from ToSpannerSQL_in_operator [OF this fd fc(2), where lib = rejectingLib and all = "[]"
      and i = 0] d
  have 2: "clauseBody rejectingLib ?fc [] ?d 0
      = Inr ([columnNameOf ?fc ?d @ '' IN UNNEST(@'' @ paramName 0 @ '')''], AnyStrings [''active''])"
    by blast
  from 1 2 show ?thesis
    by (simp add: columnNameOf_def zeroFieldConfig_def paramName_def formatNat.simps)
qed

text \<open>
  The \<^verbatim>\<open>IN\<close> branch has no check of its own, unlike the branches of \<^verbatim>\<open><@\<close> and \<^verbatim>\<open>>@\<close>,
  and the check of \<^verbatim>\<open>mapValues\<close> accepts several values as soon as \<^verbatim>\<open>AllowContains\<close> or
  \<^verbatim>\<open>AllowContainedBy\<close> is set: \<^verbatim>\<open>sports:(soccer or tennis)\<close> on a field that only sets
  \<^verbatim>\<open>AllowContains\<close> is lowered to \<^verbatim>\<open>IN UNNEST\<close>.
\<close>

lemma ToSpannerSQL_in_with_allow_contains:
  "ToSpannerSQL rejectingLib
     \<lparr>Clauses = [\<lparr>Field = ''sports'', Operator = ''IN'', Values = [''soccer'', ''tennis'']\<rparr>]\<rparr>
     [(''sports'', zeroFieldConfig\<lparr>ColumnType := FilterToSpannerFieldColumnTypeString,
                     AllowContains := True\<rparr>)]
   = Inr ([''sports IN UNNEST(@KQL0)''], [''KQL0'' \<mapsto> AnyStrings [''soccer'', ''tennis'']])"
  by (simp add: spanner_eval)

end
